theory Spec2Isabelle
  imports Main
begin

section \<open>Go library functions used by the handlers\<close>

text \<open>
  Go strings are byte sequences; they are modelled as \<^typ>\<open>string\<close> (lists of 8-bit
  characters). The functions of this section are the parts of the packages
  \<^verbatim>\<open>strings\<close> and \<^verbatim>\<open>path/filepath\<close> (Unix build, separator \<^verbatim>\<open>/\<close>) that the
  repository calls. Every call site passes a non-empty separator, so the special meaning
  Go gives to an empty separator is left out: with an empty separator the functions below
  leave their input alone.
\<close>

definition HasPrefix :: "string \<Rightarrow> string \<Rightarrow> bool" where
  "HasPrefix s p = (take (length p) s = p)"

definition HasSuffix :: "string \<Rightarrow> string \<Rightarrow> bool" where
  "HasSuffix s p = (length p \<le> length s \<and> drop (length s - length p) s = p)"

definition TrimPrefix :: "string \<Rightarrow> string \<Rightarrow> string" where
  "TrimPrefix s p = (if HasPrefix s p then drop (length p) s else s)"

text \<open>
  \<^verbatim>\<open>strings.Split(s, sep)\<close>: the pieces between the non-overlapping occurrences of
  \<^verbatim>\<open>sep\<close>, found from the left; always at least one piece.
\<close>

fun Split :: "string \<Rightarrow> string \<Rightarrow> string list" where
  "Split [] sep = [[]]"
| "Split (c # cs) sep =
     (if sep \<noteq> [] \<and> take (length sep) (c # cs) = sep
      then [] # Split (drop (length sep) (c # cs)) sep
      else (case Split cs sep of
              [] \<Rightarrow> [[c]]
            | x # xs \<Rightarrow> (c # x) # xs))"

text \<open>\<^verbatim>\<open>strings.Join(elems, sep)\<close>.\<close>

fun Join :: "string list \<Rightarrow> string \<Rightarrow> string" where
  "Join [] sep = []"
| "Join [x] sep = x"
| "Join (x # y # ys) sep = x @ sep @ Join (y # ys) sep"

text \<open>
  \<^verbatim>\<open>strings.ReplaceAll(s, old, new)\<close>: every non-overlapping occurrence of \<^verbatim>\<open>old\<close>,
  found from the left, replaced by \<^verbatim>\<open>new\<close>.
\<close>

fun ReplaceAll :: "string \<Rightarrow> string \<Rightarrow> string \<Rightarrow> string" where
  "ReplaceAll [] old new = []"
| "ReplaceAll (c # cs) old new =
     (if old \<noteq> [] \<and> take (length old) (c # cs) = old
      then new @ ReplaceAll (drop (length old) (c # cs)) old new
      else c # ReplaceAll cs old new)"

text \<open>
  \<^verbatim>\<open>filepath.Base(path)\<close>: the empty path gives \<^verbatim>\<open>.\<close>; trailing slashes are
  stripped; the result is what follows the last remaining slash, or \<^verbatim>\<open>/\<close> when
  nothing remains (the path was made of slashes only).
\<close>

definition filepath_Base :: "string \<Rightarrow> string" where
  "filepath_Base path =
     (if path = [] then ''.''
      else (let stripped = rev (dropWhile (\<lambda>c. c = CHR ''/'') (rev path));
                elem = rev (takeWhile (\<lambda>c. c \<noteq> CHR ''/'') (rev stripped))
            in if elem = [] then ''/'' else elem))"

section \<open>Cache keys\<close>

text \<open>
  \<^verbatim>\<open>generateCacheFileName\<close> of \<^verbatim>\<open>internal/handlers/npm_download.go\<close>.
  \<^verbatim>\<open>parts[0]\<close> and \<^verbatim>\<open>parts[1]\<close> are read only when \<^verbatim>\<open>len(parts) == 2\<close>.
\<close>

definition generateCacheFileName :: "string \<Rightarrow> string" where
  "generateCacheFileName p =
     (let urlPath = TrimPrefix p ''/'' in
      if HasPrefix urlPath ''@'' then
        (let parts = Split urlPath ''/-/'' in
         if length parts = 2 then
           (let scope = TrimPrefix (parts ! 0) ''@'';
                scope' = ReplaceAll scope ''/'' ''__'';
                tarballName = filepath_Base (parts ! 1)
            in ''@'' @ scope' @ ''__'' @ tarballName)
         else filepath_Base urlPath)
      else filepath_Base urlPath)"

text \<open>
  \<^verbatim>\<open>generatePyPICacheFileName\<close> of the PyPI download handler. \<^verbatim>\<open>butlast parts\<close>
  is \<^verbatim>\<open>parts[:len(parts)-1]\<close> and \<^verbatim>\<open>last parts\<close> is \<^verbatim>\<open>parts[len(parts)-1]\<close>; both
  are read only when \<^verbatim>\<open>len(parts) > 1\<close>.
\<close>

definition generatePyPICacheFileName :: "string \<Rightarrow> string" where
  "generatePyPICacheFileName p =
     (let urlPath = TrimPrefix p ''/'';
          parts = Split urlPath ''/''
      in if length parts > 1 then
           (let dirParts = butlast parts;
                fileName = last parts
            in Join dirParts ''__'' @ ''__'' @ fileName)
         else filepath_Base urlPath)"

text \<open>
  The RubyGems handler derives its key in its first statement:
  \<^verbatim>\<open>gemFileName := filepath.Base(r.URL.Path)\<close>.
\<close>

definition gemFileName :: "string \<Rightarrow> string" where
  "gemFileName p = filepath_Base p"

text \<open>
  The cache-key rule for PyPI in the words of the specification: the path without its
  leading \<^verbatim>\<open>/\<close>, every remaining \<^verbatim>\<open>/\<close> replaced by \<^verbatim>\<open>__\<close>. It is used only to
  compare \<^const>\<open>generatePyPICacheFileName\<close> with the specification.
\<close>

definition strip_leading_slash :: "string \<Rightarrow> string" where
  "strip_leading_slash p =
     (case p of [] \<Rightarrow> [] | c # cs \<Rightarrow> if c = CHR ''/'' then cs else p)"

definition replace_separators :: "string \<Rightarrow> string" where
  "replace_separators s = concat (map (\<lambda>c. if c = CHR ''/'' then ''__'' else [c]) s)"

definition pypi_key_spec :: "string \<Rightarrow> string" where
  "pypi_key_spec p = replace_separators (strip_leading_slash p)"

text \<open>
  The paths on which replacing \<^verbatim>\<open>/\<close> by \<^verbatim>\<open>__\<close> loses nothing: no underscore is
  followed by an underscore or by a \<^verbatim>\<open>/\<close>. It delimits the paths for which the keys are
  shown to be unique.
\<close>

fun underscore_clean :: "string \<Rightarrow> bool" where
  "underscore_clean [] = True"
| "underscore_clean [c] = True"
| "underscore_clean (c # d # cs) =
     (\<not> (c = CHR ''_'' \<and> (d = CHR ''_'' \<or> d = CHR ''/'')) \<and> underscore_clean (d # cs))"

section \<open>Request classification\<close>

text \<open>
  Each frontend registers one catch-all handler on \<^verbatim>\<open>/\<close> in its \<^verbatim>\<open>main\<close>; the three
  closures are modelled as functions of the request method and \<^verbatim>\<open>r.URL.Path\<close> that say
  where the request goes.
\<close>

datatype route = ArtifactPipeline | TransparentProxy

text \<open>RubyGems frontend: the closure tests the path only.\<close>

definition rubyRootHandler :: "string \<Rightarrow> string \<Rightarrow> route" where
  "rubyRootHandler method path =
     (if HasPrefix path ''/gems/'' \<and> HasSuffix path ''.gem''
      then ArtifactPipeline else TransparentProxy)"

text \<open>NPM frontend (\<^verbatim>\<open>cmd/npm_cache/main.go\<close>).\<close>

definition npmRootHandler :: "string \<Rightarrow> string \<Rightarrow> route" where
  "npmRootHandler method path =
     (if method = ''GET'' \<and> HasSuffix path ''.tgz''
      then ArtifactPipeline else TransparentProxy)"

text \<open>
  PyPI frontend (\<^verbatim>\<open>cmd/python_cache/main.go\<close>). \<^verbatim>\<open>strings.ToLower\<close> first looks for
  a byte outside ASCII. If there is none it lowers the letters \<^verbatim>\<open>A\<close> to \<^verbatim>\<open>Z\<close> byte by
  byte; otherwise it returns \<^verbatim>\<open>Map(unicode.ToLower, s)\<close>, which works on the runes of
  the string with the case tables of the Unicode library. Those tables are a parameter of
  the model, \<open>mapLower\<close>: the function that \<^verbatim>\<open>Map(unicode.ToLower, s)\<close> computes.
\<close>

definition asciiLower :: "char \<Rightarrow> char" where
  "asciiLower c =
     (let n = (of_char c :: nat) in
      if 65 \<le> n \<and> n \<le> 90 then char_of (n + 32) else c)"

definition ToLower :: "(string \<Rightarrow> string) \<Rightarrow> string \<Rightarrow> string" where
  "ToLower mapLower s =
     (if list_all (\<lambda>c. (of_char c :: nat) < 128) s then map asciiLower s else mapLower s)"

definition isPackageFile :: "(string \<Rightarrow> string) \<Rightarrow> string \<Rightarrow> bool" where
  "isPackageFile mapLower path =
     (let lowerPath = ToLower mapLower path in
      HasSuffix lowerPath ''.whl'' \<or>
      HasSuffix lowerPath ''.tar.gz'' \<or>
      HasSuffix lowerPath ''.zip'' \<or>
      HasSuffix lowerPath ''.egg'' \<or>
      HasSuffix lowerPath ''.tar.bz2'')"

definition pypiRootHandler :: "(string \<Rightarrow> string) \<Rightarrow> string \<Rightarrow> string \<Rightarrow> route" where
  "pypiRootHandler mapLower method path =
     (if method = ''GET'' \<and> isPackageFile mapLower path
      then ArtifactPipeline else TransparentProxy)"

section \<open>The artifact pipeline\<close>

text \<open>
  The three download handlers (\<^verbatim>\<open>HandleTarballDownload\<close>, \<^verbatim>\<open>GemDownloadHandler\<close>,
  \<^verbatim>\<open>PyPIDownloadHandler\<close>) have the same body after the key has been derived; they
  differ in the key, the upstream URL and the text of the 502 response.

  The world a handler acts on is the cache directory (a map from path to file) and the
  sequence of calls made to \<^verbatim>\<open>PackageRepo.UpdatePackageAccess(name, hit)\<close>. A file has
  its bytes and a flag saying whether \<^verbatim>\<open>os.Open\<close> succeeds on it; \<^verbatim>\<open>os.Stat\<close> succeeds
  on the paths that are present and reports the number of bytes.
\<close>

record cache_file =
  content :: string
  readable :: bool

type_synonym filesystem = "string \<rightharpoonup> cache_file"

record world =
  fs :: filesystem
  access_log :: "(string \<times> bool) list"

text \<open>
  What the surroundings decide during one request:
  \<^item> \<open>while_waiting\<close>: what other requests and processes do to the cache directory while
    the handler waits for the per-file lock;
  \<^item> \<open>http_get\<close>: the outcome of the upstream GET for a URL: a transport error, or a
    response with its status, the bytes \<^verbatim>\<open>io.Copy\<close> wrote and whether \<^verbatim>\<open>io.Copy\<close>
    returned an error;
  \<^item> \<open>create_ok\<close>: whether \<^verbatim>\<open>os.Create\<close> of the temp file succeeds;
  \<^item> \<open>disk_after_copy\<close>: what is at the temp path when the handler stats it, given the
    bytes copied: \<open>None\<close> if \<^verbatim>\<open>os.Stat\<close> fails, otherwise the file found there (a
    sound disk gives back the bytes copied);
  \<^item> \<open>rename_ok\<close>: whether \<^verbatim>\<open>os.Rename\<close> succeeds;
  \<^item> \<open>unlink_ok\<close>: whether \<^verbatim>\<open>os.Remove\<close> of a path succeeds.

  The handlers discard the result of \<^verbatim>\<open>os.Remove\<close>: when it fails they go on as when it
  succeeds, and the file stays where it is.
\<close>

datatype upstream_result =
  TransportError
| Response nat string bool

record env =
  while_waiting :: "filesystem \<Rightarrow> filesystem"
  http_get :: "string \<Rightarrow> upstream_result"
  create_ok :: bool
  disk_after_copy :: "string \<Rightarrow> cache_file option"
  rename_ok :: bool
  unlink_ok :: "string \<Rightarrow> bool"

text \<open>
  What the handler does to the \<^verbatim>\<open>ResponseWriter\<close>: \<^verbatim>\<open>http.ServeFile\<close> of a path, or
  \<^verbatim>\<open>http.Error\<close> with a text and a status. \<open>panicked\<close> says that the handler did not
  return but panicked after that call.
\<close>

datatype response =
  ServeFile string
| HttpError string nat

record outcome =
  resp :: response
  panicked :: bool

definition recordAccess :: "string \<Rightarrow> bool \<Rightarrow> world \<Rightarrow> world" where
  "recordAccess name hit w = w\<lparr>access_log := access_log w @ [(name, hit)]\<rparr>"

definition osRemove :: "env \<Rightarrow> string \<Rightarrow> filesystem \<Rightarrow> filesystem" where
  "osRemove e path files = (if unlink_ok e path then files(path := None) else files)"

definition returns :: "response \<Rightarrow> world \<Rightarrow> outcome \<times> world" where
  "returns r w = (\<lparr>resp = r, panicked = False\<rparr>, w)"

text \<open>
  From the upstream GET to the end of the handler. In the verification branch the handler
  removes the temp file, writes the 500 and then logs \<^verbatim>\<open>stat.Size()\<close>; when
  \<^verbatim>\<open>os.Stat\<close> has failed, \<^verbatim>\<open>stat\<close> is nil and that call panics.
\<close>

definition fetchAndInstall ::
  "string \<Rightarrow> string \<Rightarrow> string \<Rightarrow> env \<Rightarrow> world \<Rightarrow> outcome \<times> world" where
  "fetchAndInstall localPath url failText e w =
     (case http_get e url of
        TransportError \<Rightarrow> returns (HttpError failText 502) w
      | Response status body copyErr \<Rightarrow>
          if status \<noteq> 200 then returns (HttpError failText 502) w
          else
            let tempPath = localPath @ ''.tmp'' in
            if \<not> create_ok e then returns (HttpError ''File creation failed'' 500) w
            else
              let created = (fs w)(tempPath \<mapsto> \<lparr>content = [], readable = True\<rparr>);
                  copied = created(tempPath := disk_after_copy e body)
              in
              if copyErr then
                returns (HttpError ''Download failed'' 500)
                  (w\<lparr>fs := osRemove e tempPath copied\<rparr>)
              else
                (case copied tempPath of
                   None \<Rightarrow>
                     (\<lparr>resp = HttpError ''File write verification failed'' 500, panicked = True\<rparr>,
                      w\<lparr>fs := osRemove e tempPath copied\<rparr>)
                 | Some f \<Rightarrow>
                     if length (content f) \<noteq> length body then
                       returns (HttpError ''File write verification failed'' 500)
                         (w\<lparr>fs := osRemove e tempPath copied\<rparr>)
                     else if rename_ok e then
                       returns (ServeFile localPath)
                         (w\<lparr>fs := copied(localPath \<mapsto> f, tempPath := None)\<rparr>)
                     else
                       returns (HttpError ''File move failed'' 500)
                         (w\<lparr>fs := osRemove e tempPath copied\<rparr>)))"

text \<open>
  From the acquisition of the per-file lock on: the second look at the cache, then the
  miss is recorded and the download starts.
\<close>

definition lockedSection ::
  "string \<Rightarrow> string \<Rightarrow> string \<Rightarrow> string \<Rightarrow> env \<Rightarrow> world \<Rightarrow> outcome \<times> world" where
  "lockedSection localPath fileName url failText e w =
     (let w' = w\<lparr>fs := while_waiting e (fs w)\<rparr>;
          miss = fetchAndInstall localPath url failText e (recordAccess fileName False w')
      in case fs w' localPath of
           None \<Rightarrow> miss
         | Some f \<Rightarrow>
             if 0 < length (content f) \<and> readable f
             then returns (ServeFile localPath) (recordAccess fileName True w')
             else miss)"

text \<open>
  The whole body: the first look at the cache, which calls \<^verbatim>\<open>os.Remove\<close> on an
  unreadable file.
\<close>

definition downloadPipeline ::
  "string \<Rightarrow> string \<Rightarrow> string \<Rightarrow> string \<Rightarrow> env \<Rightarrow> world \<Rightarrow> outcome \<times> world" where
  "downloadPipeline localPath fileName url failText e w =
     (case fs w localPath of
        None \<Rightarrow> lockedSection localPath fileName url failText e w
      | Some f \<Rightarrow>
          if 0 < length (content f) then
            (if readable f
             then returns (ServeFile localPath) (recordAccess fileName True w)
             else lockedSection localPath fileName url failText e
                    (w\<lparr>fs := osRemove e localPath (fs w)\<rparr>))
          else lockedSection localPath fileName url failText e w)"

text \<open>
  The handlers. \<open>pathJoin\<close> stands for \<^verbatim>\<open>filepath.Join\<close>, whose result is used only as
  the name of the cache file; \<open>Upstream\<close> and \<open>CacheDir\<close> are the two fields of the
  frontend's configuration.
\<close>

definition HandleTarballDownload ::
  "(string \<Rightarrow> string \<Rightarrow> string) \<Rightarrow> string \<Rightarrow> string \<Rightarrow> string \<Rightarrow> env \<Rightarrow> world
     \<Rightarrow> outcome \<times> world" where
  "HandleTarballDownload pathJoin Upstream CacheDir path e w =
     (let fileName = generateCacheFileName path;
          localPath = pathJoin CacheDir fileName
      in downloadPipeline localPath fileName (Upstream @ path) ''Upstream fetch failed'' e w)"

definition GemDownloadHandler ::
  "(string \<Rightarrow> string \<Rightarrow> string) \<Rightarrow> string \<Rightarrow> string \<Rightarrow> string \<Rightarrow> env \<Rightarrow> world
     \<Rightarrow> outcome \<times> world" where
  "GemDownloadHandler pathJoin Upstream CacheDir path e w =
     (let fileName = gemFileName path;
          localPath = pathJoin CacheDir fileName
      in downloadPipeline localPath fileName (Upstream @ path)
           ''Failed to fetch gem from upstream'' e w)"

definition PyPIDownloadHandler ::
  "(string \<Rightarrow> string \<Rightarrow> string) \<Rightarrow> string \<Rightarrow> string \<Rightarrow> string \<Rightarrow> env \<Rightarrow> world
     \<Rightarrow> outcome \<times> world" where
  "PyPIDownloadHandler pathJoin Upstream CacheDir path e w =
     (let fileName = generatePyPICacheFileName path;
          localPath = pathJoin CacheDir fileName;
          upstreamURL = (if HasPrefix path ''/packages/''
                         then ''https://files.pythonhosted.org'' @ path
                         else Upstream @ path)
      in downloadPipeline localPath fileName upstreamURL ''Upstream fetch failed'' e w)"

section \<open>The refresh endpoint\<close>

text \<open>
  A \<^verbatim>\<open>time.Time\<close> is the number of nanoseconds since Go's zero time, so the zero value
  is \<open>0\<close>; a \<^verbatim>\<open>time.Duration\<close> is a signed 64-bit number of nanoseconds.
  \<^verbatim>\<open>Time.Sub\<close> saturates, subtraction of durations wraps around, and
  \<^verbatim>\<open>Duration.Round\<close> is written as in the library (remainder truncated towards zero,
  halves rounded away from zero, saturation on overflow).
\<close>

definition minute :: int where
  "minute = 60 * 1000000000"

definition maxDuration :: int where
  "maxDuration = 2 ^ 63 - 1"

definition minDuration :: int where
  "minDuration = - (2 ^ 63)"

definition wrap64 :: "int \<Rightarrow> int" where
  "wrap64 x = (x + 2 ^ 63) mod 2 ^ 64 - 2 ^ 63"

definition time_Sub :: "int \<Rightarrow> int \<Rightarrow> int" where
  "time_Sub t u =
     (let d = t - u in
      if d > maxDuration then maxDuration
      else if d < minDuration then minDuration
      else d)"

definition IsZero :: "int \<Rightarrow> bool" where
  "IsZero t = (t = 0)"

definition lessThanHalf :: "int \<Rightarrow> int \<Rightarrow> bool" where
  "lessThanHalf x y = (x + x < y)"

definition Duration_Round :: "int \<Rightarrow> int \<Rightarrow> int" where
  "Duration_Round d m =
     (if m \<le> 0 then d
      else if d < 0 then
        (let r = (- d) mod m in
         if lessThanHalf r m then wrap64 (d + r)
         else (let d1 = wrap64 (d - m + r) in if d1 < d then d1 else minDuration))
      else
        (let r = d mod m in
         if lessThanHalf r m then wrap64 (d - r)
         else (let d1 = wrap64 (d + m - r) in if d1 > d then d1 else maxDuration)))"

text \<open>
  The package-level variables \<^verbatim>\<open>refreshInProgress\<close> and \<^verbatim>\<open>lastRefreshTime\<close>; the
  handler reads and writes them under \<^verbatim>\<open>refreshMutex\<close>, so one call is one step.
\<close>

record refresh_state =
  refreshInProgress :: bool
  lastRefreshTime :: int

text \<open>
  The four message texts of the handler. \<open>PleaseWait d\<close> is the text
  \<^verbatim>\<open>"Please wait " + d.String() + " before refreshing again."\<close>; the other three are
  fixed texts:
  \<^item> \<open>MethodNotAllowed\<close>: \<^verbatim>\<open>Method not allowed\<close>;
  \<^item> \<open>AlreadyInProgress\<close>: \<^verbatim>\<open>A refresh operation is already in progress. Please wait.\<close>;
  \<^item> \<open>RefreshStarted\<close>:
    \<^verbatim>\<open>Database refresh started in background. This may take a few minutes.\<close>
\<close>

datatype refresh_message =
  MethodNotAllowed
| AlreadyInProgress
| PleaseWait int
| RefreshStarted

record RefreshResponse =
  refresh_Success :: bool
  refresh_Message :: refresh_message

text \<open>
  \<^verbatim>\<open>refreshHandler\<close>. The clock is read twice, by \<^verbatim>\<open>time.Since\<close> (\<open>now\<close>) and by
  \<^verbatim>\<open>time.Now\<close> when the refresh is marked as started (\<open>now'\<close>). The second component of
  the result says whether \<^verbatim>\<open>go performDatabaseRefresh(cacheDir)\<close> was executed.
\<close>

definition refreshHandler ::
  "string \<Rightarrow> int \<Rightarrow> int \<Rightarrow> refresh_state \<Rightarrow> RefreshResponse \<times> bool \<times> refresh_state" where
  "refreshHandler method now now' s =
     (if method \<noteq> ''POST'' then
        (\<lparr>refresh_Success = False, refresh_Message = MethodNotAllowed\<rparr>, False, s)
      else if refreshInProgress s then
        (\<lparr>refresh_Success = False, refresh_Message = AlreadyInProgress\<rparr>, False, s)
      else
        (let timeSinceLastRefresh = time_Sub now (lastRefreshTime s) in
         if timeSinceLastRefresh < 30 * minute \<and> \<not> IsZero (lastRefreshTime s) then
           (let remainingTime = wrap64 (30 * minute - timeSinceLastRefresh) in
            (\<lparr>refresh_Success = False,
              refresh_Message = PleaseWait (Duration_Round remainingTime minute)\<rparr>,
             False, s))
         else
           (\<lparr>refresh_Success = True, refresh_Message = RefreshStarted\<rparr>, True,
            s\<lparr>refreshInProgress := True, lastRefreshTime := now'\<rparr>)))"

text \<open>
  The deferred function of \<^verbatim>\<open>performDatabaseRefresh\<close>, which runs when the job ends,
  whatever the database operations did.
\<close>

definition performDatabaseRefresh_end :: "refresh_state \<Rightarrow> refresh_state" where
  "performDatabaseRefresh_end s = s\<lparr>refreshInProgress := False\<rparr>"

text \<open>
  The refresh state machine: requests arrive and running jobs end, in any order.
  \<open>jobs\<close> counts the \<^verbatim>\<open>performDatabaseRefresh\<close> goroutines that were started and have
  not ended; a job can end only if there is one.
\<close>

record refresh_system =
  vars :: refresh_state
  jobs :: nat

datatype refresh_event =
  Request string int int
| JobEnds

fun refresh_step :: "refresh_system \<Rightarrow> refresh_event \<Rightarrow> refresh_system" where
  "refresh_step sys (Request method now now') =
     (case refreshHandler method now now' (vars sys) of
        (r, started, s') \<Rightarrow>
          \<lparr>vars = s', jobs = (if started then Suc (jobs sys) else jobs sys)\<rparr>)"
| "refresh_step sys JobEnds =
     (if jobs sys = 0 then sys
      else \<lparr>vars = performDatabaseRefresh_end (vars sys), jobs = jobs sys - 1\<rparr>)"

definition refresh_start :: refresh_system where
  "refresh_start = \<lparr>vars = \<lparr>refreshInProgress = False, lastRefreshTime = 0\<rparr>, jobs = 0\<rparr>"

definition refresh_run :: "refresh_event list \<Rightarrow> refresh_system" where
  "refresh_run events = foldl refresh_step refresh_start events"

section \<open>The purge endpoint\<close>

text \<open>
  What the surroundings decide during one purge: whether \<^verbatim>\<open>filepath.Glob\<close> rejects a
  pattern (its only error is a malformed pattern), which paths it returns for a pattern on
  the current directory, whether \<^verbatim>\<open>os.Remove\<close> of a path succeeds, and whether
  \<^verbatim>\<open>DeletePackagesByNames\<close> succeeds.
\<close>

record purge_env =
  bad_pattern :: "string \<Rightarrow> bool"
  glob_matches :: "filesystem \<Rightarrow> string \<Rightarrow> string list"
  remove_ok :: "string \<Rightarrow> bool"
  db_delete_ok :: bool

record purge_world =
  cache :: filesystem
  rows :: "string set"

record PurgeResponse =
  purge_Success :: bool
  purge_Message :: string
  Deleted :: "string list"
  Failed :: "string list"

datatype purge_result =
  PlainError string nat
| Json PurgeResponse

text \<open>The inner loop over the matches; a failed removal is logged and skipped.\<close>

fun removeMatches :: "purge_env \<Rightarrow> string list \<Rightarrow> filesystem \<Rightarrow> filesystem" where
  "removeMatches e [] files = files"
| "removeMatches e (m # ms) files =
     removeMatches e ms (if remove_ok e m then files(m := None) else files)"

text \<open>
  One round of the outer loop. The source has one branch for \<^verbatim>\<open>packageType == "npm"\<close>
  and one for the other types; they differ in the texts they log only.
\<close>

definition purgeOne ::
  "purge_env \<Rightarrow> (string \<Rightarrow> string \<Rightarrow> string) \<Rightarrow> string \<Rightarrow> string
     \<Rightarrow> filesystem \<times> string list \<Rightarrow> filesystem \<times> string list" where
  "purgeOne e pathJoin cacheDir pkgName st =
     (case st of (files, failed) \<Rightarrow>
        (let pattern = pathJoin cacheDir pkgName in
         if bad_pattern e pattern then (files, failed @ [pkgName])
         else (removeMatches e (glob_matches e files pattern) files, failed)))"

fun purgeLoop ::
  "purge_env \<Rightarrow> (string \<Rightarrow> string \<Rightarrow> string) \<Rightarrow> string \<Rightarrow> string \<Rightarrow> string list
     \<Rightarrow> filesystem \<times> string list \<Rightarrow> filesystem \<times> string list" where
  "purgeLoop e pathJoin cacheDir packageType [] st = st"
| "purgeLoop e pathJoin cacheDir packageType (pkgName # rest) st =
     purgeLoop e pathJoin cacheDir packageType rest
       (if packageType = ''npm''
        then purgeOne e pathJoin cacheDir pkgName st
        else purgeOne e pathJoin cacheDir pkgName st)"

text \<open>
  \<^verbatim>\<open>purgeHandler\<close>. \<open>body\<close> is the result of decoding the request body: \<open>None\<close> when
  the decoder fails, otherwise the \<^verbatim>\<open>Packages\<close> field.
\<close>

definition purgeHandler ::
  "purge_env \<Rightarrow> (string \<Rightarrow> string \<Rightarrow> string) \<Rightarrow> string \<Rightarrow> string list option \<Rightarrow> string
     \<Rightarrow> string \<Rightarrow> purge_world \<Rightarrow> purge_result \<times> purge_world" where
  "purgeHandler e pathJoin method body cacheDir packageType w =
     (if method \<noteq> ''POST'' then (PlainError ''Method not allowed'' 405, w)
      else case body of
        None \<Rightarrow> (PlainError ''Invalid request body'' 400, w)
      | Some packages \<Rightarrow>
          if length packages = 0 then
            (Json \<lparr>purge_Success = True, purge_Message = ''No packages to purge'',
                   Deleted = [], Failed = []\<rparr>, w)
          else
            (case purgeLoop e pathJoin cacheDir packageType packages (cache w, []) of
               (files, failed) \<Rightarrow>
                 if \<not> db_delete_ok e then
                   (Json \<lparr>purge_Success = False,
                          purge_Message = ''Failed to delete packages from database'',
                          Deleted = [], Failed = []\<rparr>,
                    w\<lparr>cache := files\<rparr>)
                 else
                   (let deleted = packages;
                        response = \<lparr>purge_Success = True,
                                    purge_Message = ''Packages purged successfully'',
                                    Deleted = deleted, Failed = []\<rparr>
                    in (Json (if length failed > 0
                              then response\<lparr>Failed := failed,
                                     purge_Message := ''Some packages failed to purge completely''\<rparr>
                              else response),
                        w\<lparr>cache := files, rows := rows w - set packages\<rparr>))))"

section \<open>Invariant and example surroundings\<close>

text \<open>
  The invariant of the refresh state machine: the number of running jobs is one while
  \<^verbatim>\<open>refreshInProgress\<close> is set and zero otherwise.
\<close>

definition refresh_inv :: "refresh_system \<Rightarrow> bool" where
  "refresh_inv sys = (jobs sys = (if refreshInProgress (vars sys) then 1 else 0))"

text \<open>
  Concrete surroundings on which the handlers are run below: a path joiner that puts a
  \<^verbatim>\<open>/\<close> between a clean directory name and a key (what \<^verbatim>\<open>filepath.Join\<close> returns
  for them), a disk that gives back what was written, an empty cache with no access
  recorded, a stand-in for the Unicode case tables on runs whose paths are ASCII (where
  they are not consulted), and five behaviours of the surroundings. In all five nobody
  else touches the cache directory and \<^verbatim>\<open>os.Create\<close> succeeds.
\<close>

definition no_case_tables :: "string \<Rightarrow> string" where
  "no_case_tables s = s"

definition joinSlash :: "string \<Rightarrow> string \<Rightarrow> string" where
  "joinSlash dir name = dir @ ''/'' @ name"

definition sound_disk :: "string \<Rightarrow> cache_file option" where
  "sound_disk bytes = Some \<lparr>content = bytes, readable = True\<rparr>"

definition empty_world :: world where
  "empty_world = \<lparr>fs = Map.empty, access_log = []\<rparr>"

text \<open>The upstream GET fails with a transport error.\<close>

definition upstream_down :: env where
  "upstream_down =
     \<lparr>while_waiting = (\<lambda>files. files), http_get = (\<lambda>url. TransportError),
      create_ok = True, disk_after_copy = sound_disk, rename_ok = True,
      unlink_ok = (\<lambda>path. True)\<rparr>"



text \<open>The same, but \<^verbatim>\<open>os.Stat\<close> of the temp file fails after the copy.\<close>

definition stat_fails :: env where
  "stat_fails =
     \<lparr>while_waiting = (\<lambda>files. files), http_get = (\<lambda>url. Response 200 ''abc'' False),
      create_ok = True, disk_after_copy = (\<lambda>bytes. None), rename_ok = True,
      unlink_ok = (\<lambda>path. True)\<rparr>"


text \<open>
  A purge in which the pattern \<^verbatim>\<open>cache/[\<close> is malformed, the pattern
  \<^verbatim>\<open>cache/foo-1.0.tgz\<close> matches the file of that name, no other pattern matches a file,
  no removal succeeds and the database delete succeeds; and a cache directory that holds
  the file \<^verbatim>\<open>cache/foo-1.0.tgz\<close>.
\<close>

definition purge_unlink_fails :: purge_env where
  "purge_unlink_fails =
     \<lparr>bad_pattern = (\<lambda>pattern. pattern = ''cache/[''),
      glob_matches = (\<lambda>files pattern.
        if pattern = ''cache/foo-1.0.tgz'' then [''cache/foo-1.0.tgz''] else []),
      remove_ok = (\<lambda>path. False),
      db_delete_ok = True\<rparr>"

definition one_file_world :: purge_world where
  "one_file_world =
     \<lparr>cache = [''cache/foo-1.0.tgz'' \<mapsto> \<lparr>content = ''abc'', readable = True\<rparr>],
      rows = {''foo-1.0.tgz''}\<rparr>"

section \<open>Properties of the cache keys and of the classifiers\<close>


lemma TrimPrefix_slash: "TrimPrefix p ''/'' = strip_leading_slash p"
  by (cases p) (auto simp: TrimPrefix_def HasPrefix_def strip_leading_slash_def)

lemma Split_nonempty: "Split s sep \<noteq> []"
  by (induction s sep rule: Split.induct) (auto split: list.splits)

lemma Split_char:
  "Split (x # xs) [c] =
     (if x = c then [] # Split xs [c] else (x # hd (Split xs [c])) # tl (Split xs [c]))"
  using Split_nonempty [of xs "[c]"] by (cases "Split xs [c]") auto

lemma Join_Cons_Cons: "Join ((x # h) # t) sep = x # Join (h # t) sep"
  by (cases t) auto

lemma Join_Nil_Cons: "t \<noteq> [] \<Longrightarrow> Join ([] # t) sep = sep @ Join t sep"
  by (cases t) auto

lemma Join_Split_char:
  "Join (Split s [c]) new = concat (map (\<lambda>x. if x = c then new else [x]) s)"
proof (induction s)
  case Nil
  show ?case by simp
next
  case (Cons x xs)
  obtain h t where ht: "Split xs [c] = h # t"
    using Split_nonempty [of xs "[c]"] by (cases "Split xs [c]") auto
  show ?case
  proof (cases "x = c")
    case True
    then show ?thesis
      using Cons.IH Split_nonempty [of xs "[c]"]
      by (simp add: Split_char Join_Nil_Cons)
  next
    case False
    then show ?thesis
      using Cons.IH ht by (simp add: Split_char Join_Cons_Cons)
  qed
qed

lemma Split_char_pieces: "x \<in> set (Split s [c]) \<Longrightarrow> c \<notin> set x"
proof (induction s arbitrary: x)
  case Nil
  then show ?case by simp
next
  case (Cons a s)
  obtain h t where ht: "Split s [c] = h # t"
    using Split_nonempty [of s "[c]"] by (cases "Split s [c]") auto
  show ?case
    using Cons.prems Cons.IH ht by (auto simp: Split_char split: if_splits)
qed

lemma Join_no_char:
  "\<forall>x \<in> set xs. c \<notin> set x \<Longrightarrow> c \<notin> set sep \<Longrightarrow> c \<notin> set (Join xs sep)"
  by (induction xs sep rule: Join.induct) auto

lemma ReplaceAll_char_no_char:
  "c \<notin> set new \<Longrightarrow> c \<notin> set (ReplaceAll s [c] new)"
  by (induction s) auto

lemma Base_no_separator:
  assumes "path \<noteq> []" and "last path \<noteq> CHR ''/''"
  shows "CHR ''/'' \<notin> set (filepath_Base path)"
proof -
  obtain a r where r: "rev path = a # r" and a: "a \<noteq> CHR ''/''"
    using assms by (cases "rev path") (auto simp: last_rev [symmetric] simp del: last_rev)
  have 1: "dropWhile (\<lambda>c. c = CHR ''/'') (rev path) = rev path"
    using r a by simp
  have 2: "takeWhile (\<lambda>c. c \<noteq> CHR ''/'') (rev path) \<noteq> []"
    using r a by simp
  show ?thesis
    using assms(1) 2 by (auto simp: filepath_Base_def 1 Let_def dest: set_takeWhileD)
qed

lemma HasSuffix_last:
  "HasSuffix s p \<Longrightarrow> p \<noteq> [] \<Longrightarrow> s \<noteq> [] \<and> last s = last p"
  unfolding HasSuffix_def
  by (metis append_take_drop_id last_appendR length_0_conv le_zero_eq)


lemma Join_Split: "Join (Split s sep) sep = s"
proof (induction s sep rule: Split.induct)
  case (1 sep)
  show ?case by simp
next
  case (2 c cs sep)
  show ?case
  proof (cases "sep \<noteq> [] \<and> take (length sep) (c # cs) = sep")
    case True
    then have "Join (Split (drop (length sep) (c # cs)) sep) sep = drop (length sep) (c # cs)"
      using 2 by simp
    moreover have "Split (c # cs) sep = [] # Split (drop (length sep) (c # cs)) sep"
      using True by simp
    ultimately have "Join (Split (c # cs) sep) sep = sep @ drop (length sep) (c # cs)"
      using Split_nonempty [of "drop (length sep) (c # cs)" sep] by (simp add: Join_Nil_Cons)
    also have "\<dots> = take (length sep) (c # cs) @ drop (length sep) (c # cs)"
      using True by simp
    finally show ?thesis by (simp only: append_take_drop_id)
  next
    case False
    obtain h t where ht: "Split cs sep = h # t"
      using Split_nonempty [of cs sep] by (cases "Split cs sep") auto
    have "Join (Split cs sep) sep = cs"
      using 2 False by simp
    moreover have "Split (c # cs) sep = (c # h) # t"
      using False ht by (cases "sep = []") auto
    ultimately show ?thesis
      using ht by (simp add: Join_Cons_Cons)
  qed
qed

lemma TrimPrefix_slash_last:
  assumes "p \<noteq> []" and "last p \<noteq> CHR ''/''"
  shows "TrimPrefix p ''/'' \<noteq> [] \<and> last (TrimPrefix p ''/'') = last p"
  using assms by (cases p) (auto simp: TrimPrefix_def HasPrefix_def)

lemma npm_key_no_separator:
  assumes "HasSuffix p ''.tgz''"
  shows "CHR ''/'' \<notin> set (generateCacheFileName p)"
proof -
  let ?u = "TrimPrefix p ''/''"
  have p: "p \<noteq> [] \<and> last p = CHR ''z''"
    using HasSuffix_last [OF assms] by simp
  then have u: "?u \<noteq> []" "last ?u = CHR ''z''"
    using TrimPrefix_slash_last [of p] by auto
  have base: "CHR ''/'' \<notin> set (filepath_Base ?u)"
    using u by (intro Base_no_separator) auto
  show ?thesis
  proof (cases "HasPrefix ?u ''@'' \<and> length (Split ?u ''/-/'') = 2")
    case False
    then show ?thesis
      using base by (auto simp: generateCacheFileName_def Let_def)
  next
    case True
    then obtain a b where ab: "Split ?u ''/-/'' = [a, b]"
      by (cases "Split ?u ''/-/''") (auto simp: length_Suc_conv)
    have "?u = a @ ''/-/'' @ b"
      using Join_Split [of ?u "''/-/''"] ab by simp
    then have b: "b \<noteq> []" "last b = CHR ''z''"
      using u(2) by (cases b; auto)+
    have "CHR ''/'' \<notin> set (filepath_Base b)"
      using b by (intro Base_no_separator) auto
    moreover have "CHR ''/'' \<notin> set (ReplaceAll (TrimPrefix a ''@'') ''/'' ''__'')"
      by (rule ReplaceAll_char_no_char) simp
    ultimately show ?thesis
      using True ab by (simp add: generateCacheFileName_def Let_def)
  qed
qed

lemma gem_key_no_separator:
  assumes "HasSuffix p ''.gem''"
  shows "CHR ''/'' \<notin> set (gemFileName p)"
proof -
  have "p \<noteq> [] \<and> last p = CHR ''m''"
    using HasSuffix_last [OF assms] by simp
  then show ?thesis
    unfolding gemFileName_def by (intro Base_no_separator) auto
qed

lemma length_Split_char: "length (Split s [c]) = Suc (length (filter (\<lambda>x. x = c) s))"
proof (induction s)
  case Nil
  show ?case by simp
next
  case (Cons x xs)
  then show ?case
    using Split_nonempty [of xs "[c]"]
    by (cases "Split xs [c]") (auto simp: Split_char)
qed

lemma Split_char_single: "length (Split s [c]) \<le> 1 \<Longrightarrow> c \<notin> set s"
  by (auto simp: length_Split_char filter_empty_conv)

lemma Base_no_slash: "s \<noteq> [] \<Longrightarrow> CHR ''/'' \<notin> set s \<Longrightarrow> filepath_Base s = s"
proof -
  assume a: "s \<noteq> []" "CHR ''/'' \<notin> set s"
  have 1: "dropWhile (\<lambda>c. c = CHR ''/'') (rev s) = rev s"
    using a by (cases "rev s") auto
  have 2: "takeWhile (\<lambda>c. c \<noteq> CHR ''/'') (rev s) = rev s"
    using a by (auto simp: takeWhile_eq_all_conv)
  show ?thesis using a by (simp add: filepath_Base_def 1 2)
qed

lemma pypi_key_no_separator: "CHR ''/'' \<notin> set (generatePyPICacheFileName p)"
proof -
  let ?u = "TrimPrefix p ''/''"
  let ?parts = "Split ?u ''/''"
  have pieces: "\<forall>x \<in> set ?parts. CHR ''/'' \<notin> set x"
    using Split_char_pieces [of _ ?u "CHR ''/''"] by blast
  show ?thesis
  proof (cases "length ?parts > 1")
    case True
    have "\<forall>x \<in> set (butlast ?parts). CHR ''/'' \<notin> set x"
      using pieces by (auto dest: in_set_butlastD)
    then have "CHR ''/'' \<notin> set (Join (butlast ?parts) ''__'')"
      by (intro Join_no_char) auto
    moreover have "CHR ''/'' \<notin> set (last ?parts)"
      using pieces Split_nonempty [of ?u "''/''"] by (auto dest: last_in_set)
    ultimately show ?thesis
      using True by (simp add: generatePyPICacheFileName_def Let_def)
  next
    case False
    then have ns: "CHR ''/'' \<notin> set ?u"
      using Split_char_single [of ?u "CHR ''/''"] by simp
    have "CHR ''/'' \<notin> set (filepath_Base ?u)"
    proof (cases "?u = []")
      case True
      then show ?thesis by (simp add: filepath_Base_def)
    next
      case False
      then show ?thesis using ns by (simp add: Base_no_slash)
    qed
    then show ?thesis
      using False by (simp add: generatePyPICacheFileName_def Let_def)
  qed
qed

lemma Base_dir_file:
  assumes "f \<noteq> []" and "CHR ''/'' \<notin> set f"
  shows "filepath_Base (d @ ''/'' @ f) = f"
proof -
  have "rev f = last f # rev (butlast f)"
    using assms(1) by (simp add: rev_eq_Cons_iff)
  moreover have "last f \<noteq> CHR ''/''"
    using assms by (metis last_in_set)
  ultimately obtain a r where r: "rev f = a # r" and a: "a \<noteq> CHR ''/''"
    by blast
  have 1: "dropWhile (\<lambda>c. c = CHR ''/'') (rev (d @ ''/'' @ f)) = rev f @ ''/'' @ rev d"
    using r a by simp
  have 2: "takeWhile (\<lambda>c. c \<noteq> CHR ''/'') (rev f @ ''/'' @ rev d) = rev f"
    using assms(2) by (simp add: takeWhile_append)
  show ?thesis
    using assms(1) 2 unfolding filepath_Base_def Let_def 1 by simp
qed

lemma gem_key_flat:
  "f \<noteq> [] \<Longrightarrow> CHR ''/'' \<notin> set f \<Longrightarrow> gemFileName (''/gems/'' @ f) = f"
  using Base_dir_file [of f "''/gems''"] by (simp add: gemFileName_def)

lemma replace_separators_id: "CHR ''/'' \<notin> set s \<Longrightarrow> replace_separators s = s"
  by (induction s) (auto simp: replace_separators_def)

lemma Join_butlast_last:
  "length xs > 1 \<Longrightarrow> Join (butlast xs) sep @ sep @ last xs = Join xs sep"
  by (induction xs sep rule: Join.induct) (auto split: if_splits)

lemma pypi_key_trimmed:
  assumes "u \<noteq> []"
  shows "(let parts = Split u ''/'' in
            if length parts > 1 then Join (butlast parts) ''__'' @ ''__'' @ last parts
            else filepath_Base u) = replace_separators u"
proof (cases "length (Split u ''/'') > 1")
  case True
  then show ?thesis
    using Join_butlast_last [OF True, of "''__''"] Join_Split_char [of u "CHR ''/''" "''__''"]
    by (simp add: Let_def replace_separators_def)
next
  case False
  then have "CHR ''/'' \<notin> set u"
    using Split_char_single [of u "CHR ''/''"] by simp
  then show ?thesis
    using False assms by (simp add: Let_def Base_no_slash replace_separators_id)
qed

lemma isPackageFile_not_root: "isPackageFile mapLower p \<Longrightarrow> p \<noteq> [] \<and> p \<noteq> ''/''"
  by (auto simp: isPackageFile_def ToLower_def asciiLower_def HasSuffix_def Let_def)

lemma pypi_key_eq_spec:
  assumes "p \<noteq> []" and "p \<noteq> ''/''"
  shows "generatePyPICacheFileName p = pypi_key_spec p"
proof -
  have "strip_leading_slash p \<noteq> []"
    using assms by (cases p) (auto simp: strip_leading_slash_def)
  then show ?thesis
    using pypi_key_trimmed [of "strip_leading_slash p"]
    unfolding generatePyPICacheFileName_def pypi_key_spec_def TrimPrefix_slash Let_def
    by simp
qed

lemma replace_separators_Nil: "replace_separators [] = []"
  by (simp add: replace_separators_def)

lemma replace_separators_Cons:
  "replace_separators (c # cs) =
     (if c = CHR ''/'' then CHR ''_'' # CHR ''_'' # replace_separators cs
      else c # replace_separators cs)"
  by (simp add: replace_separators_def)

lemma replace_separators_append:
  "replace_separators (x @ y) = replace_separators x @ replace_separators y"
  by (simp add: replace_separators_def)

lemma underscore_clean_tl: "underscore_clean (c # cs) \<Longrightarrow> underscore_clean cs"
  by (cases cs) auto

lemma underscore_clean_split:
  "c \<noteq> CHR ''_'' \<Longrightarrow>
   underscore_clean (x @ c # y) = (underscore_clean (x @ [c]) \<and> underscore_clean y)"
proof (induction x rule: underscore_clean.induct)
  case 1
  then show ?case by (cases y) auto
next
  case (2 d)
  then show ?case by (cases y) auto
next
  case (3 d e cs)
  then show ?case by simp
qed

lemma replace_separators_inj:
  "underscore_clean xs \<Longrightarrow> underscore_clean ys \<Longrightarrow>
   replace_separators xs = replace_separators ys \<Longrightarrow> xs = ys"
proof (induction xs arbitrary: ys)
  case Nil
  then show ?case
    by (cases ys) (auto simp: replace_separators_Nil replace_separators_Cons split: if_splits)
next
  case (Cons x xs)
  note cx = underscore_clean_tl [OF Cons.prems(1)]
  show ?case
  proof (cases ys)
    case Nil
    then show ?thesis
      using Cons.prems(3)
      by (auto simp: replace_separators_Nil replace_separators_Cons split: if_splits)
  next
    case ys: (Cons y ys')
    note cy = underscore_clean_tl [OF Cons.prems(2) [unfolded ys]]
    consider (ss) "x = CHR ''/''" "y = CHR ''/''"
      | (sn) "x = CHR ''/''" "y \<noteq> CHR ''/''"
      | (ns) "x \<noteq> CHR ''/''" "y = CHR ''/''"
      | (nn) "x \<noteq> CHR ''/''" "y \<noteq> CHR ''/''"
      by blast
    then show ?thesis
    proof cases
      case ss
      then have "replace_separators xs = replace_separators ys'"
        using Cons.prems(3) ys by (simp add: replace_separators_Cons)
      then show ?thesis
        using Cons.IH [OF cx cy] ss ys by simp
    next
      case nn
      then have "x = y \<and> replace_separators xs = replace_separators ys'"
        using Cons.prems(3) ys by (simp add: replace_separators_Cons)
      then show ?thesis
        using Cons.IH [OF cx cy] ys by simp
    next
      case sn
      then have e: "y = CHR ''_''" "replace_separators ys' = CHR ''_'' # replace_separators xs"
        using Cons.prems(3) ys by (auto simp: replace_separators_Cons)
      then obtain z zs where z: "ys' = z # zs"
        by (cases ys') (auto simp: replace_separators_Nil)
      then have "z = CHR ''_'' \<or> z = CHR ''/''"
        using e(2) by (auto simp: replace_separators_Cons split: if_splits)
      then have False
        using Cons.prems(2) ys z e(1) by auto
      then show ?thesis ..
    next
      case ns
      then have e: "x = CHR ''_''" "replace_separators xs = CHR ''_'' # replace_separators ys'"
        using Cons.prems(3) ys by (auto simp: replace_separators_Cons)
      then obtain z zs where z: "xs = z # zs"
        by (cases xs) (auto simp: replace_separators_Nil)
      then have "z = CHR ''_'' \<or> z = CHR ''/''"
        using e(2) by (auto simp: replace_separators_Cons split: if_splits)
      then have False
        using Cons.prems(1) z e(1) by auto
      then show ?thesis ..
    qed
  qed
qed

lemma ReplaceAll_char:
  "ReplaceAll s [c] new = concat (map (\<lambda>x. if x = c then new else [x]) s)"
  by (induction s) auto

lemma append_slash_inj:
  assumes "CHR ''/'' \<notin> set f" and "CHR ''/'' \<notin> set g"
    and "x @ CHR ''/'' # f = y @ CHR ''/'' # g"
  shows "x = y \<and> f = g"
proof -
  have t: "takeWhile (\<lambda>c. c \<noteq> CHR ''/'') (rev (u @ CHR ''/'' # h)) = rev h"
    if "CHR ''/'' \<notin> set h" for u h
    using that by (auto simp: takeWhile_append)
  have "rev f = rev g"
    using t [OF assms(1), of x] t [OF assms(2), of y] assms(3) by simp
  then have "f = g" by simp
  then show ?thesis using assms(3) by simp
qed

lemma npm_key_scoped:
  assumes "HasPrefix (TrimPrefix p ''/'') ''@''"
    and "Split (TrimPrefix p ''/'') ''/-/'' = [a, f]"
    and "f \<noteq> []" and "CHR ''/'' \<notin> set f"
  shows "TrimPrefix p ''/'' = CHR ''@'' # tl a @ ''/-/'' @ f \<and>
         generateCacheFileName p = CHR ''@'' # replace_separators (tl a @ CHR ''/'' # f)"
proof -
  let ?u = "TrimPrefix p ''/''"
  have u: "?u = a @ ''/-/'' @ f"
    using Join_Split [of ?u "''/-/''"] assms(2) by simp
  obtain a' where a: "a = CHR ''@'' # a'"
    using assms(1) u by (cases a) (auto simp: HasPrefix_def)
  have t: "TrimPrefix a ''@'' = a'"
    using a by (simp add: TrimPrefix_def HasPrefix_def)
  have b: "filepath_Base f = f"
    using assms(3,4) by (rule Base_no_slash)
  have r: "ReplaceAll a' ''/'' ''__'' = replace_separators a'"
    by (simp add: ReplaceAll_char replace_separators_def)
  have "generateCacheFileName p = CHR ''@'' # replace_separators a' @ ''__'' @ f"
    using assms(1,2) by (simp add: generateCacheFileName_def Let_def t b r)
  moreover have "replace_separators (a' @ CHR ''/'' # f) = replace_separators a' @ ''__'' @ f"
    using assms(4)
    by (simp add: replace_separators_append replace_separators_Cons replace_separators_id)
  ultimately show ?thesis
    using u a by simp
qed

lemma HasPrefix_slash: "HasPrefix p ''/'' \<Longrightarrow> p = CHR ''/'' # strip_leading_slash p"
  by (cases p) (auto simp: HasPrefix_def strip_leading_slash_def)

lemma scoped_clean:
  assumes "underscore_clean (CHR ''/'' # CHR ''@'' # a' @ ''/-/'' @ f)"
  shows "underscore_clean (a' @ CHR ''/'' # f)"
proof -
  have "underscore_clean (a' @ CHR ''/'' # (''-/'' @ f))"
    using underscore_clean_tl [OF underscore_clean_tl [OF assms]] by simp
  then have 1: "underscore_clean (a' @ ''/'')" and 2: "underscore_clean (''-'' @ CHR ''/'' # f)"
    using underscore_clean_split [of "CHR ''/''" a' "''-/'' @ f"] by simp_all
  have "underscore_clean f"
    using 2 underscore_clean_split [of "CHR ''/''" "''-''" f] by simp
  then show ?thesis
    using 1 underscore_clean_split [of "CHR ''/''" a' f] by simp
qed

lemma npm_key_scoped_inj:
  assumes "HasPrefix p ''/''" and "HasPrefix q ''/''"
    and "HasPrefix (TrimPrefix p ''/'') ''@''" and "HasPrefix (TrimPrefix q ''/'') ''@''"
    and "Split (TrimPrefix p ''/'') ''/-/'' = [a, f]"
    and "Split (TrimPrefix q ''/'') ''/-/'' = [b, g]"
    and "f \<noteq> []" and "g \<noteq> []" and "CHR ''/'' \<notin> set f" and "CHR ''/'' \<notin> set g"
    and "underscore_clean p" and "underscore_clean q"
    and "generateCacheFileName p = generateCacheFileName q"
  shows "p = q"
proof -
  note kp = npm_key_scoped [OF assms(3,5,7,9)]
  note kq = npm_key_scoped [OF assms(4,6,8,10)]
  have p: "p = CHR ''/'' # CHR ''@'' # tl a @ ''/-/'' @ f"
    using HasPrefix_slash [OF assms(1)] kp by (simp add: TrimPrefix_slash)
  have q: "q = CHR ''/'' # CHR ''@'' # tl b @ ''/-/'' @ g"
    using HasPrefix_slash [OF assms(2)] kq by (simp add: TrimPrefix_slash)
  have cp: "underscore_clean (tl a @ CHR ''/'' # f)"
    using assms(11) p scoped_clean [of "tl a" f] by simp
  have cq: "underscore_clean (tl b @ CHR ''/'' # g)"
    using assms(12) q scoped_clean [of "tl b" g] by simp
  have "replace_separators (tl a @ CHR ''/'' # f) = replace_separators (tl b @ CHR ''/'' # g)"
    using assms(13) kp kq by simp
  then have "tl a @ CHR ''/'' # f = tl b @ CHR ''/'' # g"
    using cp cq by (rule replace_separators_inj [rotated 2])
  then have "tl a = tl b \<and> f = g"
    using assms(9,10) by (rule append_slash_inj [rotated 2])
  then show ?thesis
    using p q by simp
qed

lemma pypi_key_inj:
  assumes "isPackageFile mapLower p" and "isPackageFile mapLower q"
    and "HasPrefix p ''/''" and "HasPrefix q ''/''"
    and "underscore_clean p" and "underscore_clean q"
    and "generatePyPICacheFileName p = generatePyPICacheFileName q"
  shows "p = q"
proof -
  have kp: "generatePyPICacheFileName p = pypi_key_spec p"
    using isPackageFile_not_root [OF assms(1)] pypi_key_eq_spec [of p] by simp
  have kq: "generatePyPICacheFileName q = pypi_key_spec q"
    using isPackageFile_not_root [OF assms(2)] pypi_key_eq_spec [of q] by simp
  have e: "replace_separators (strip_leading_slash p) = replace_separators (strip_leading_slash q)"
    using assms(7) unfolding kp kq pypi_key_spec_def .
  have cp: "underscore_clean (strip_leading_slash p)"
    using HasPrefix_slash [OF assms(3)] assms(5) underscore_clean_tl by metis
  have cq: "underscore_clean (strip_leading_slash q)"
    using HasPrefix_slash [OF assms(4)] assms(6) underscore_clean_tl by metis
  have "strip_leading_slash p = strip_leading_slash q"
    using cp cq e by (rule replace_separators_inj)
  then show ?thesis
    using HasPrefix_slash [OF assms(3)] HasPrefix_slash [OF assms(4)] by simp
qed

lemma Base_leading_slash:
  assumes "cs \<noteq> []" and "last cs \<noteq> CHR ''/''"
  shows "filepath_Base (CHR ''/'' # cs) = filepath_Base cs"
proof -
  have "rev cs = last cs # rev (butlast cs)"
    using assms(1) by (simp add: rev_eq_Cons_iff)
  then obtain a r where r: "rev cs = a # r" and a: "a \<noteq> CHR ''/''"
    using assms(2) by blast
  have 1: "dropWhile (\<lambda>c. c = CHR ''/'') (rev (CHR ''/'' # cs)) = rev cs @ ''/''"
    using r a by simp
  have 2: "dropWhile (\<lambda>c. c = CHR ''/'') (rev cs) = rev cs"
    using r a by simp
  have 3: "takeWhile (\<lambda>c. c \<noteq> CHR ''/'') (rev cs @ ''/'') =
           takeWhile (\<lambda>c. c \<noteq> CHR ''/'') (rev cs)"
    by (auto simp: takeWhile_append takeWhile_eq_all_conv [THEN iffD2])
  show ?thesis
    using assms(1) unfolding filepath_Base_def Let_def 1 2 by (simp add: 3)
qed

lemma npm_key_unscoped_basename:
  assumes "HasSuffix p ''.tgz''" and "\<not> HasPrefix (TrimPrefix p ''/'') ''@''"
  shows "generateCacheFileName p = filepath_Base p"
proof -
  have p: "p \<noteq> [] \<and> last p = CHR ''z''"
    using HasSuffix_last [OF assms(1)] by simp
  have "filepath_Base (TrimPrefix p ''/'') = filepath_Base p"
  proof (cases p)
    case Nil
    then show ?thesis using p by simp
  next
    case (Cons c cs)
    show ?thesis
    proof (cases "c = CHR ''/''")
      case False
      then show ?thesis using Cons by (simp add: TrimPrefix_def HasPrefix_def)
    next
      case True
      then have "cs \<noteq> [] \<and> last cs \<noteq> CHR ''/''"
        using p Cons by (cases cs) auto
      then show ?thesis
        using True Cons Base_leading_slash [of cs] by (simp add: TrimPrefix_def HasPrefix_def)
    qed
  qed
  then show ?thesis
    using assms(2) by (simp add: generateCacheFileName_def Let_def)
qed

text \<open>
  Claim C7. For every PyPI artifact path the key built by splitting on \<^verbatim>\<open>/\<close> and joining
  with \<^verbatim>\<open>__\<close> is the key the specification describes: the path without its leading
  \<^verbatim>\<open>/\<close>, every remaining \<^verbatim>\<open>/\<close> replaced by \<^verbatim>\<open>__\<close>. The two agree on every path
  other than the empty path and \<^verbatim>\<open>/\<close>; every artifact path has at least four bytes
  (lemma \<open>isPackageFile_not_root\<close>), so it is one of them.
\<close>

theorem pypi_key_refines_spec:
  assumes "p \<noteq> []" and "p \<noteq> ''/''"
  shows "generatePyPICacheFileName p = pypi_key_spec p"
  using assms by (rule pypi_key_eq_spec)

theorem pypi_key_refines_spec_witness:
  "''/packages/source/p/pkg/pkg-1.0.tar.gz'' \<noteq> [] \<and>
   ''/packages/source/p/pkg/pkg-1.0.tar.gz'' \<noteq> ''/'' \<and>
   generatePyPICacheFileName ''/packages/source/p/pkg/pkg-1.0.tar.gz'' =
     pypi_key_spec ''/packages/source/p/pkg/pkg-1.0.tar.gz'' \<and>
   pypi_key_spec ''/packages/source/p/pkg/pkg-1.0.tar.gz'' =
     ''packages__source__p__pkg__pkg-1.0.tar.gz''"
  using pypi_key_refines_spec [of "''/packages/source/p/pkg/pkg-1.0.tar.gz''"]
  by (simp add: pypi_key_spec_def strip_leading_slash_def replace_separators_def)

text \<open>
  Claim C4, as amended. For every path accepted by an ecosystem's classifier the derived key
  contains no \<^verbatim>\<open>/\<close>. The RubyGems key is the basename of the path, so it is unique
  among the paths \<^verbatim>\<open>/gems/<file>\<close> with no further \<^verbatim>\<open>/\<close>, whose key is \<^verbatim>\<open><file>\<close>.
  Two accepted unscoped NPM paths with different basenames have different keys. Two scoped
  NPM paths that begin with \<^verbatim>\<open>/\<close>, split at \<^verbatim>\<open>/-/\<close> into exactly two parts with a
  tarball name free of \<^verbatim>\<open>/\<close>, and have no underscore followed by an underscore or a
  \<^verbatim>\<open>/\<close>, have the same key only if they are the same path; and so do two accepted PyPI
  paths that begin with \<^verbatim>\<open>/\<close> and have no underscore followed by an underscore or a
  \<^verbatim>\<open>/\<close>.
\<close>

theorem cache_key_shape:
  "(HasSuffix pa ''.tgz'' \<longrightarrow> CHR ''/'' \<notin> set (generateCacheFileName pa)) \<and>
   (HasPrefix pb ''/gems/'' \<and> HasSuffix pb ''.gem'' \<longrightarrow> CHR ''/'' \<notin> set (gemFileName pb)) \<and>
   (isPackageFile mapLower pc \<longrightarrow> CHR ''/'' \<notin> set (generatePyPICacheFileName pc)) \<and>
   (t \<noteq> [] \<and> CHR ''/'' \<notin> set t \<longrightarrow> gemFileName (''/gems/'' @ t) = t) \<and>
   (HasSuffix pd ''.tgz'' \<and> HasSuffix qd ''.tgz'' \<and>
    \<not> HasPrefix (TrimPrefix pd ''/'') ''@'' \<and> \<not> HasPrefix (TrimPrefix qd ''/'') ''@'' \<and>
    generateCacheFileName pd = generateCacheFileName qd \<longrightarrow>
      filepath_Base pd = filepath_Base qd) \<and>
   (HasPrefix pe ''/'' \<and> HasPrefix qe ''/'' \<and>
    HasPrefix (TrimPrefix pe ''/'') ''@'' \<and> HasPrefix (TrimPrefix qe ''/'') ''@'' \<and>
    Split (TrimPrefix pe ''/'') ''/-/'' = [a, f] \<and>
    Split (TrimPrefix qe ''/'') ''/-/'' = [b, g] \<and>
    f \<noteq> [] \<and> g \<noteq> [] \<and> CHR ''/'' \<notin> set f \<and> CHR ''/'' \<notin> set g \<and>
    underscore_clean pe \<and> underscore_clean qe \<and>
    generateCacheFileName pe = generateCacheFileName qe \<longrightarrow> pe = qe) \<and>
   (isPackageFile mapLower p \<and> isPackageFile mapLower q \<and>
    HasPrefix p ''/'' \<and> HasPrefix q ''/'' \<and>
    underscore_clean p \<and> underscore_clean q \<and>
    generatePyPICacheFileName p = generatePyPICacheFileName q \<longrightarrow> p = q)"
proof (intro conjI impI)
  show "CHR ''/'' \<notin> set (generateCacheFileName pa)" if "HasSuffix pa ''.tgz''"
    using that by (rule npm_key_no_separator)
  show "CHR ''/'' \<notin> set (gemFileName pb)"
    if "HasPrefix pb ''/gems/'' \<and> HasSuffix pb ''.gem''"
    using that by (simp add: gem_key_no_separator)
  show "CHR ''/'' \<notin> set (generatePyPICacheFileName pc)"
    by (rule pypi_key_no_separator)
  show "gemFileName (''/gems/'' @ t) = t" if "t \<noteq> [] \<and> CHR ''/'' \<notin> set t"
    using that gem_key_flat [of t] by simp
  show "filepath_Base pd = filepath_Base qd"
    if "HasSuffix pd ''.tgz'' \<and> HasSuffix qd ''.tgz'' \<and>
        \<not> HasPrefix (TrimPrefix pd ''/'') ''@'' \<and> \<not> HasPrefix (TrimPrefix qd ''/'') ''@'' \<and>
        generateCacheFileName pd = generateCacheFileName qd"
    using that npm_key_unscoped_basename [of pd] npm_key_unscoped_basename [of qd] by simp
  show "pe = qe"
    if h: "HasPrefix pe ''/'' \<and> HasPrefix qe ''/'' \<and>
        HasPrefix (TrimPrefix pe ''/'') ''@'' \<and> HasPrefix (TrimPrefix qe ''/'') ''@'' \<and>
        Split (TrimPrefix pe ''/'') ''/-/'' = [a, f] \<and>
        Split (TrimPrefix qe ''/'') ''/-/'' = [b, g] \<and>
        f \<noteq> [] \<and> g \<noteq> [] \<and> CHR ''/'' \<notin> set f \<and> CHR ''/'' \<notin> set g \<and>
        underscore_clean pe \<and> underscore_clean qe \<and>
        generateCacheFileName pe = generateCacheFileName qe"
  proof (rule npm_key_scoped_inj)
    show "HasPrefix pe ''/''" "HasPrefix qe ''/''"
      "HasPrefix (TrimPrefix pe ''/'') ''@''" "HasPrefix (TrimPrefix qe ''/'') ''@''"
      "Split (TrimPrefix pe ''/'') ''/-/'' = [a, f]"
      "Split (TrimPrefix qe ''/'') ''/-/'' = [b, g]"
      "f \<noteq> []" "g \<noteq> []" "CHR ''/'' \<notin> set f" "CHR ''/'' \<notin> set g"
      "underscore_clean pe" "underscore_clean qe"
      "generateCacheFileName pe = generateCacheFileName qe"
      using h by simp_all
  qed
  show "p = q"
    if h: "isPackageFile mapLower p \<and> isPackageFile mapLower q \<and>
        HasPrefix p ''/'' \<and> HasPrefix q ''/'' \<and>
        underscore_clean p \<and> underscore_clean q \<and>
        generatePyPICacheFileName p = generatePyPICacheFileName q"
  proof (rule pypi_key_inj)
    show "isPackageFile mapLower p" "isPackageFile mapLower q"
      "HasPrefix p ''/''" "HasPrefix q ''/''"
      "underscore_clean p" "underscore_clean q"
      "generatePyPICacheFileName p = generatePyPICacheFileName q"
      using h by simp_all
  qed
qed

theorem cache_key_shape_witness:
  "HasSuffix ''/a.tgz'' ''.tgz'' \<and>
   CHR ''/'' \<notin> set (generateCacheFileName ''/a.tgz'') \<and>
   HasPrefix ''/gems/a.gem'' ''/gems/'' \<and> HasSuffix ''/gems/a.gem'' ''.gem'' \<and>
   CHR ''/'' \<notin> set (gemFileName ''/gems/a.gem'') \<and>
   isPackageFile no_case_tables ''/p/a_b.whl'' \<and>
   CHR ''/'' \<notin> set (generatePyPICacheFileName ''/p/a_b.whl'') \<and>
   ''a.gem'' \<noteq> [] \<and> CHR ''/'' \<notin> set ''a.gem'' \<and>
   gemFileName (''/gems/'' @ ''a.gem'') = ''a.gem'' \<and>
   \<not> HasPrefix (TrimPrefix ''/n/-/a.tgz'' ''/'') ''@'' \<and>
   generateCacheFileName ''/n/-/a.tgz'' = generateCacheFileName ''/n/-/a.tgz'' \<and>
   filepath_Base ''/n/-/a.tgz'' = filepath_Base ''/n/-/a.tgz'' \<and>
   HasPrefix ''/@s/n_m/-/a.tgz'' ''/'' \<and>
   HasPrefix (TrimPrefix ''/@s/n_m/-/a.tgz'' ''/'') ''@'' \<and>
   Split (TrimPrefix ''/@s/n_m/-/a.tgz'' ''/'') ''/-/'' = [''@s/n_m'', ''a.tgz''] \<and>
   ''a.tgz'' \<noteq> [] \<and> CHR ''/'' \<notin> set ''a.tgz'' \<and>
   underscore_clean ''/@s/n_m/-/a.tgz'' \<and>
   HasPrefix ''/p/a_b.whl'' ''/'' \<and> underscore_clean ''/p/a_b.whl''"
proof -
  have h1: "HasSuffix ''/a.tgz'' ''.tgz''"
    by code_simp
  have h2: "HasPrefix ''/gems/a.gem'' ''/gems/'' \<and> HasSuffix ''/gems/a.gem'' ''.gem''"
    by code_simp
  have h3: "isPackageFile no_case_tables ''/p/a_b.whl''"
    by code_simp
  have h4: "''a.gem'' \<noteq> [] \<and> CHR ''/'' \<notin> set ''a.gem''"
    by code_simp
  have h5: "\<not> HasPrefix (TrimPrefix ''/n/-/a.tgz'' ''/'') ''@''"
    by code_simp
  have h6: "HasPrefix ''/@s/n_m/-/a.tgz'' ''/'' \<and>
     HasPrefix (TrimPrefix ''/@s/n_m/-/a.tgz'' ''/'') ''@'' \<and>
     Split (TrimPrefix ''/@s/n_m/-/a.tgz'' ''/'') ''/-/'' = [''@s/n_m'', ''a.tgz''] \<and>
     ''a.tgz'' \<noteq> [] \<and> CHR ''/'' \<notin> set ''a.tgz'' \<and>
     underscore_clean ''/@s/n_m/-/a.tgz''"
    by code_simp
  have h7: "HasPrefix ''/p/a_b.whl'' ''/'' \<and> underscore_clean ''/p/a_b.whl''"
    by code_simp
  note shape = cache_key_shape [where pa = "''/a.tgz''" and pb = "''/gems/a.gem''"
      and pc = "''/p/a_b.whl''" and mapLower = no_case_tables and t = "''a.gem''"
      and pd = "''/n/-/a.tgz''" and qd = "''/n/-/a.tgz''"
      and pe = "''/@s/n_m/-/a.tgz''" and qe = "''/@s/n_m/-/a.tgz''"
      and a = "''@s/n_m''" and f = "''a.tgz''" and b = "''@s/n_m''" and g = "''a.tgz''"
      and p = "''/p/a_b.whl''" and q = "''/p/a_b.whl''"]
  have c1: "CHR ''/'' \<notin> set (generateCacheFileName ''/a.tgz'')"
    using shape h1 by blast
  have c2: "CHR ''/'' \<notin> set (gemFileName ''/gems/a.gem'')"
    using shape h2 by blast
  have c3: "CHR ''/'' \<notin> set (generatePyPICacheFileName ''/p/a_b.whl'')"
    using shape h3 by blast
  have c4: "gemFileName (''/gems/'' @ ''a.gem'') = ''a.gem''"
    using shape h4 by blast
  show ?thesis
    using h1 h2 h3 h4 h5 h6 h7 c1 c2 c3 c4 by (intro conjI) (simp_all only: simp_thms)
qed

text \<open>
  Claim C4 as stated fails for RubyGems, whose key is the basename by design: two distinct
  gem paths, both sent to the artifact pipeline, with the same key.
\<close>

theorem gem_key_collision:
  "rubyRootHandler ''GET'' ''/gems/a/x.gem'' = ArtifactPipeline \<and>
   rubyRootHandler ''GET'' ''/gems/b/x.gem'' = ArtifactPipeline \<and>
   ''/gems/a/x.gem'' \<noteq> ''/gems/b/x.gem'' \<and>
   gemFileName ''/gems/a/x.gem'' = gemFileName ''/gems/b/x.gem''"
  by code_simp

text \<open>
  The comments of \<^verbatim>\<open>generateCacheFileName\<close> and \<^verbatim>\<open>generatePyPICacheFileName\<close> call
  their result a unique filename. Outside the paths covered above the two functions can
  give one key to two paths that their classifiers accept.
\<close>

lemma npm_pypi_key_collisions:
  "npmRootHandler ''GET'' ''/a/-/x.tgz'' = ArtifactPipeline \<and>
   npmRootHandler ''GET'' ''/b/-/x.tgz'' = ArtifactPipeline \<and>
   generateCacheFileName ''/a/-/x.tgz'' = generateCacheFileName ''/b/-/x.tgz'' \<and>
   pypiRootHandler no_case_tables ''GET'' ''/a/b.whl'' = ArtifactPipeline \<and>
   pypiRootHandler no_case_tables ''GET'' ''/a__b.whl'' = ArtifactPipeline \<and>
   generatePyPICacheFileName ''/a/b.whl'' = generatePyPICacheFileName ''/a__b.whl''"
  by code_simp

text \<open>
  Claim C1. The claim gives \<^verbatim>\<open>@types__node-20.10.0.tgz\<close> as the key of
  \<^verbatim>\<open>/@types/node/-/node-20.10.0.tgz\<close>, and the comment in \<^verbatim>\<open>HandleTarballDownload\<close>
  gives \<^verbatim>\<open>@types__html-minifier-terser-6.1.0.tgz\<close> for its own example. The function
  keeps the package name that follows the scope, so it returns a longer key in both cases.
  (For a tarball path that is not scoped the key is the basename of the path, as the claim
  says: lemma \<open>npm_key_unscoped_basename\<close>.)
\<close>

theorem npm_scoped_key_value:
  "generateCacheFileName ''/@types/node/-/node-20.10.0.tgz'' = ''@types__node__node-20.10.0.tgz'' \<and>
   generateCacheFileName ''/@types/node/-/node-20.10.0.tgz'' \<noteq> ''@types__node-20.10.0.tgz'' \<and>
   generateCacheFileName ''/@types/html-minifier-terser/-/html-minifier-terser-6.1.0.tgz'' =
     ''@types__html-minifier-terser__html-minifier-terser-6.1.0.tgz''"
  by code_simp

lemma ruby_route_ignores_method: "rubyRootHandler method path = rubyRootHandler ''GET'' path"
  by (simp add: rubyRootHandler_def)

text \<open>
  Claim C2. The claim sends a non-GET request for a gem path to the transparent proxy. The
  RubyGems closure does not look at the method (lemma \<open>ruby_route_ignores_method\<close>), so
  a POST for \<^verbatim>\<open>/gems/rails-7.1.0.gem\<close> reaches the artifact pipeline; the NPM and PyPI
  closures test the method and send the corresponding POST to the proxy.
\<close>

theorem ruby_non_get_reaches_pipeline:
  "rubyRootHandler ''POST'' ''/gems/rails-7.1.0.gem'' = ArtifactPipeline \<and>
   npmRootHandler ''POST'' ''/lodash/-/lodash-4.17.21.tgz'' = TransparentProxy \<and>
   pypiRootHandler mapLower ''POST'' ''/packages/py3/f/foo/foo-1.2-py3-none-any.whl'' =
     TransparentProxy"
  by (simp add: rubyRootHandler_def npmRootHandler_def pypiRootHandler_def HasPrefix_def
      HasSuffix_def)

section \<open>Properties of the artifact pipeline\<close>

lemma fetchAndInstall_log:
  "access_log (snd (fetchAndInstall localPath url failText e w)) = access_log w"
  by (simp add: fetchAndInstall_def returns_def Let_def
      split: upstream_result.splits option.splits)

lemma lockedSection_cases:
  "(lockedSection localPath fileName url failText e w =
      returns (ServeFile localPath) (recordAccess fileName True (w\<lparr>fs := while_waiting e (fs w)\<rparr>))) \<or>
   (lockedSection localPath fileName url failText e w =
      fetchAndInstall localPath url failText e
        (recordAccess fileName False (w\<lparr>fs := while_waiting e (fs w)\<rparr>)))"
  by (simp add: lockedSection_def Let_def split: option.splits)

lemma downloadPipeline_cases:
  "(\<exists>w'. access_log w' = access_log w \<and>
      downloadPipeline localPath fileName url failText e w =
        returns (ServeFile localPath) (recordAccess fileName True w')) \<or>
   (\<exists>w'. access_log w' = access_log w \<and>
      downloadPipeline localPath fileName url failText e w =
        fetchAndInstall localPath url failText e (recordAccess fileName False w'))"
proof -
  have a: "\<And>v. access_log v = access_log w \<Longrightarrow>
      (\<exists>w'. access_log w' = access_log w \<and>
         lockedSection localPath fileName url failText e v =
           returns (ServeFile localPath) (recordAccess fileName True w')) \<or>
      (\<exists>w'. access_log w' = access_log w \<and>
         lockedSection localPath fileName url failText e v =
           fetchAndInstall localPath url failText e (recordAccess fileName False w'))"
  proof -
    fix v :: world
    assume v: "access_log v = access_log w"
    let ?v' = "v\<lparr>fs := while_waiting e (fs v)\<rparr>"
    have "access_log ?v' = access_log w" using v by simp
    then show "(\<exists>w'. access_log w' = access_log w \<and>
         lockedSection localPath fileName url failText e v =
           returns (ServeFile localPath) (recordAccess fileName True w')) \<or>
      (\<exists>w'. access_log w' = access_log w \<and>
         lockedSection localPath fileName url failText e v =
           fetchAndInstall localPath url failText e (recordAccess fileName False w'))"
      using lockedSection_cases [of localPath fileName url failText e v] by blast
  qed
  show ?thesis
  proof (cases "fs w localPath")
    case None
    then show ?thesis
      using a [of w] by (simp add: downloadPipeline_def)
  next
    case (Some f)
    show ?thesis
    proof (cases "0 < length (content f)")
      case False
      then show ?thesis
        using Some a [of w] by (simp add: downloadPipeline_def)
    next
      case True
      show ?thesis
      proof (cases "readable f")
        case True
        have "downloadPipeline localPath fileName url failText e w =
            returns (ServeFile localPath) (recordAccess fileName True w)"
          using Some True \<open>0 < length (content f)\<close> by (simp add: downloadPipeline_def)
        then show ?thesis by blast
      next
        case False
        have "downloadPipeline localPath fileName url failText e w =
            lockedSection localPath fileName url failText e (w\<lparr>fs := osRemove e localPath (fs w)\<rparr>)"
          using Some False \<open>0 < length (content f)\<close> by (simp add: downloadPipeline_def)
        then show ?thesis
          using a [of "w\<lparr>fs := osRemove e localPath (fs w)\<rparr>"] by simp
      qed
    qed
  qed
qed

lemma downloadPipeline_one_record:
  "\<exists>hit. access_log (snd (downloadPipeline localPath fileName url failText e w)) =
     access_log w @ [(fileName, hit)]"
  using downloadPipeline_cases [of w localPath fileName url failText e]
  by (auto simp: returns_def recordAccess_def fetchAndInstall_log)

lemma downloadPipeline_error_is_miss:
  assumes "resp (fst (downloadPipeline localPath fileName url failText e w)) = HttpError t c"
  shows "access_log (snd (downloadPipeline localPath fileName url failText e w)) =
     access_log w @ [(fileName, False)]"
  using downloadPipeline_cases [of w localPath fileName url failText e] assms
  by (auto simp: returns_def recordAccess_def fetchAndInstall_log)


lemma downloadPipeline_miss:
  assumes "access_log (snd (downloadPipeline localPath fileName url failText e w)) =
     access_log w @ [(fileName, False)]"
  shows "\<exists>w'. downloadPipeline localPath fileName url failText e w =
     fetchAndInstall localPath url failText e w'"
  using downloadPipeline_cases [of w localPath fileName url failText e] assms
  by (auto simp: returns_def recordAccess_def)

lemma fetchAndInstall_temp_gone:
  assumes "http_get e url = Response 200 body copyErr" and "create_ok e"
    and "unlink_ok e (localPath @ ''.tmp'') \<or>
         resp (fst (fetchAndInstall localPath url failText e w)) = ServeFile localPath"
  shows "fs (snd (fetchAndInstall localPath url failText e w)) (localPath @ ''.tmp'') = None"
  using assms
  by (auto simp: fetchAndInstall_def returns_def osRemove_def Let_def
      split: option.splits if_splits)

lemma fetchAndInstall_installed:
  assumes "http_get e url = Response 200 body False" and "create_ok e"
    and "resp (fst (fetchAndInstall localPath url failText e w)) = ServeFile localPath"
  shows "\<exists>f. disk_after_copy e body = Some f \<and> length (content f) = length body \<and>
           fs (snd (fetchAndInstall localPath url failText e w)) localPath = Some f"
  using assms
  by (auto simp: fetchAndInstall_def returns_def osRemove_def Let_def
      split: option.splits if_splits)

lemma fetchAndInstall_rejected:
  assumes "http_get e url = Response 200 body False" and "create_ok e"
    and "disk_after_copy e body = None \<or>
         (\<exists>f. disk_after_copy e body = Some f \<and> length (content f) \<noteq> length body)"
  shows "resp (fst (fetchAndInstall localPath url failText e w)) =
           HttpError ''File write verification failed'' 500 \<and>
         fs (snd (fetchAndInstall localPath url failText e w)) localPath = fs w localPath"
  using assms
  by (auto simp: fetchAndInstall_def returns_def osRemove_def Let_def
      split: option.splits if_splits)

lemma npm_handler_miss:
  assumes "access_log (snd (HandleTarballDownload pathJoin Upstream CacheDir path e w)) =
             access_log w @ [(generateCacheFileName path, False)]"
  shows "\<exists>w'. HandleTarballDownload pathJoin Upstream CacheDir path e w =
           fetchAndInstall (pathJoin CacheDir (generateCacheFileName path)) (Upstream @ path)
             ''Upstream fetch failed'' e w'"
  using downloadPipeline_miss [of "pathJoin CacheDir (generateCacheFileName path)"
      "generateCacheFileName path" "Upstream @ path" "''Upstream fetch failed''" e w] assms
  unfolding HandleTarballDownload_def Let_def by blast

text \<open>
  What the size check of \<^verbatim>\<open>HandleTarballDownload\<close> guarantees on a cache miss whose
  download went through (status 200, temp file created, copy without error): a response
  that serves the file means that the file at the final path is the one \<^verbatim>\<open>os.Stat\<close>
  saw, with as many bytes as were copied; a size that differs, or a failing \<^verbatim>\<open>os.Stat\<close>,
  gives the 500, and the temp file is gone if its \<^verbatim>\<open>os.Remove\<close> succeeds.
\<close>

lemma install_passes_size_check:
  assumes "http_get e (Upstream @ path) = Response 200 body False"
    and "create_ok e"
    and "access_log (snd (HandleTarballDownload pathJoin Upstream CacheDir path e w)) =
           access_log w @ [(generateCacheFileName path, False)]"
  shows "(resp (fst (HandleTarballDownload pathJoin Upstream CacheDir path e w)) =
            ServeFile (pathJoin CacheDir (generateCacheFileName path)) \<longrightarrow>
          (\<exists>f. disk_after_copy e body = Some f \<and> length (content f) = length body \<and>
               fs (snd (HandleTarballDownload pathJoin Upstream CacheDir path e w))
                 (pathJoin CacheDir (generateCacheFileName path)) = Some f)) \<and>
         (disk_after_copy e body = None \<or>
          (\<exists>f. disk_after_copy e body = Some f \<and> length (content f) \<noteq> length body) \<longrightarrow>
          resp (fst (HandleTarballDownload pathJoin Upstream CacheDir path e w)) =
            HttpError ''File write verification failed'' 500 \<and>
          (unlink_ok e (pathJoin CacheDir (generateCacheFileName path) @ ''.tmp'') \<longrightarrow>
           fs (snd (HandleTarballDownload pathJoin Upstream CacheDir path e w))
             (pathJoin CacheDir (generateCacheFileName path) @ ''.tmp'') = None))"
proof -
  let ?lp = "pathJoin CacheDir (generateCacheFileName path)"
  obtain w' where h: "HandleTarballDownload pathJoin Upstream CacheDir path e w =
      fetchAndInstall ?lp (Upstream @ path) ''Upstream fetch failed'' e w'"
    using npm_handler_miss [OF assms(3)] by blast
  show ?thesis
    unfolding h
    using fetchAndInstall_installed [OF assms(1,2), of ?lp "''Upstream fetch failed''" w']
      fetchAndInstall_rejected [OF assms(1,2), of ?lp "''Upstream fetch failed''" w']
      fetchAndInstall_temp_gone [OF assms(1,2), of ?lp "''Upstream fetch failed''" w']
    by blast
qed


lemma example_key: "generateCacheFileName ''/a/-/a-1.0.tgz'' = ''a-1.0.tgz''"
  by code_simp

lemma run_upstream_down:
  "HandleTarballDownload joinSlash ''https://registry.npmjs.org'' ''cache'' ''/a/-/a-1.0.tgz''
     upstream_down empty_world =
   (\<lparr>resp = HttpError ''Upstream fetch failed'' 502, panicked = False\<rparr>,
    \<lparr>fs = Map.empty, access_log = [(''a-1.0.tgz'', False)]\<rparr>)"
  by (simp add: HandleTarballDownload_def downloadPipeline_def lockedSection_def
      fetchAndInstall_def returns_def recordAccess_def osRemove_def empty_world_def upstream_down_def
      example_key)


lemma run_stat_fails:
  "HandleTarballDownload joinSlash ''https://registry.npmjs.org'' ''cache'' ''/a/-/a-1.0.tgz''
     stat_fails empty_world =
   (\<lparr>resp = HttpError ''File write verification failed'' 500, panicked = True\<rparr>,
    \<lparr>fs = Map.empty, access_log = [(''a-1.0.tgz'', False)]\<rparr>)"
  by (simp add: HandleTarballDownload_def downloadPipeline_def lockedSection_def
      fetchAndInstall_def returns_def recordAccess_def osRemove_def empty_world_def stat_fails_def
      joinSlash_def example_key)



text \<open>
  Claim C3, as amended. Every request handled by one of the three download handlers makes
  exactly one call of \<^verbatim>\<open>UpdatePackageAccess\<close>, for the request's key; and when
  \<^verbatim>\<open>HandleTarballDownload\<close> answers with an error (the 502 of a failed upstream fetch
  among them), that one call is the miss, which is recorded before the fetch.
\<close>

theorem one_access_record_per_request:
  "(\<exists>hit. access_log (snd (HandleTarballDownload pathJoin Upstream CacheDir path e w)) =
      access_log w @ [(generateCacheFileName path, hit)]) \<and>
   (\<exists>hit. access_log (snd (GemDownloadHandler pathJoin Upstream CacheDir path e w)) =
      access_log w @ [(gemFileName path, hit)]) \<and>
   (\<exists>hit. access_log (snd (PyPIDownloadHandler pathJoin Upstream CacheDir path e w)) =
      access_log w @ [(generatePyPICacheFileName path, hit)]) \<and>
   (\<forall>msg code.
      resp (fst (HandleTarballDownload pathJoin Upstream CacheDir path e w)) =
        HttpError msg code \<longrightarrow>
      access_log (snd (HandleTarballDownload pathJoin Upstream CacheDir path e w)) =
        access_log w @ [(generateCacheFileName path, False)])"
  unfolding HandleTarballDownload_def GemDownloadHandler_def PyPIDownloadHandler_def Let_def
  using downloadPipeline_one_record downloadPipeline_error_is_miss
  by blast

theorem one_access_record_per_request_witness:
  "resp (fst (HandleTarballDownload joinSlash ''https://registry.npmjs.org'' ''cache''
       ''/a/-/a-1.0.tgz'' upstream_down empty_world)) =
     HttpError ''Upstream fetch failed'' 502 \<and>
   access_log (snd (HandleTarballDownload joinSlash ''https://registry.npmjs.org'' ''cache''
       ''/a/-/a-1.0.tgz'' upstream_down empty_world)) =
     access_log empty_world @ [(generateCacheFileName ''/a/-/a-1.0.tgz'', False)]"
proof -
  have r: "resp (fst (HandleTarballDownload joinSlash ''https://registry.npmjs.org'' ''cache''
       ''/a/-/a-1.0.tgz'' upstream_down empty_world)) =
     HttpError ''Upstream fetch failed'' 502"
    by (simp add: run_upstream_down)
  show ?thesis
    using r one_access_record_per_request [of joinSlash "''https://registry.npmjs.org''"
        "''cache''" "''/a/-/a-1.0.tgz''" upstream_down empty_world]
    by blast
qed

text \<open>
  Claim C3 as stated fails when the upstream fetch fails: the handler answers 502 and the
  miss has been recorded, where the claim says that neither call is made.
\<close>

theorem miss_recorded_when_upstream_fails:
  "resp (fst (HandleTarballDownload joinSlash ''https://registry.npmjs.org'' ''cache''
       ''/a/-/a-1.0.tgz'' upstream_down empty_world)) =
     HttpError ''Upstream fetch failed'' 502 \<and>
   access_log (snd (HandleTarballDownload joinSlash ''https://registry.npmjs.org'' ''cache''
       ''/a/-/a-1.0.tgz'' upstream_down empty_world)) = [(''a-1.0.tgz'', False)]"
  by (simp add: run_upstream_down)

text \<open>
  Claim C5. The claim says that a failing \<^verbatim>\<open>os.Stat\<close> of the temp file ends in a 500
  response. The handler removes the temp file and writes the 500, and then panics: its log
  call reads \<^verbatim>\<open>stat.Size()\<close> with \<^verbatim>\<open>stat\<close> nil. Nothing is installed. (What the size
  check does otherwise is lemma \<open>install_passes_size_check\<close>.)
\<close>

theorem stat_failure_ends_in_panic:
  "fst (HandleTarballDownload joinSlash ''https://registry.npmjs.org'' ''cache''
       ''/a/-/a-1.0.tgz'' stat_fails empty_world) =
     \<lparr>resp = HttpError ''File write verification failed'' 500, panicked = True\<rparr> \<and>
   fs (snd (HandleTarballDownload joinSlash ''https://registry.npmjs.org'' ''cache''
       ''/a/-/a-1.0.tgz'' stat_fails empty_world)) ''cache/a-1.0.tgz.tmp'' = None \<and>
   fs (snd (HandleTarballDownload joinSlash ''https://registry.npmjs.org'' ''cache''
       ''/a/-/a-1.0.tgz'' stat_fails empty_world)) ''cache/a-1.0.tgz'' = None"
  by (simp add: run_stat_fails)




section \<open>Properties of the refresh endpoint\<close>

lemma refreshHandler_started:
  assumes "refreshHandler method now now' s = (r, started, s')" and "started"
  shows "method = ''POST'' \<and> \<not> refreshInProgress s \<and>
         (IsZero (lastRefreshTime s) \<or> 30 * minute \<le> time_Sub now (lastRefreshTime s)) \<and>
         s' = s\<lparr>refreshInProgress := True, lastRefreshTime := now'\<rparr> \<and>
         r = \<lparr>refresh_Success = True, refresh_Message = RefreshStarted\<rparr>"
  using assms by (auto simp: refreshHandler_def Let_def split: if_splits)

lemma refreshHandler_blocked:
  assumes "refreshHandler method now now' s = (r, started, s')" and "\<not> started"
  shows "s' = s \<and> \<not> refresh_Success r"
  using assms by (auto simp: refreshHandler_def Let_def split: if_splits)

lemma refreshHandler_in_progress:
  assumes "refreshHandler method now now' s = (r, started, s')"
    and "method = ''POST''" and "refreshInProgress s"
  shows "\<not> started \<and> refresh_Message r = AlreadyInProgress"
  using assms by (auto simp: refreshHandler_def Let_def split: if_splits)

lemma refreshHandler_rate_limited:
  assumes "refreshHandler method now now' s = (r, started, s')"
    and "method = ''POST''" and "\<not> refreshInProgress s" and "\<not> started"
  shows "refresh_Message r =
           PleaseWait (Duration_Round (wrap64 (30 * minute - time_Sub now (lastRefreshTime s))) minute)"
  using assms by (auto simp: refreshHandler_def Let_def split: if_splits)

lemma refresh_step_inv: "refresh_inv sys \<Longrightarrow> refresh_inv (refresh_step sys ev)"
proof (cases ev)
  case (Request m t t')
  assume inv: "refresh_inv sys"
  obtain r started s' where h: "refreshHandler m t t' (vars sys) = (r, started, s')"
    by (cases "refreshHandler m t t' (vars sys)") auto
  show ?thesis
  proof (cases started)
    case True
    then show ?thesis
      using refreshHandler_started [OF h] inv Request h
      by (auto simp: refresh_inv_def)
  next
    case False
    then show ?thesis
      using refreshHandler_blocked [OF h] inv Request h
      by (auto simp: refresh_inv_def)
  qed
next
  case JobEnds
  assume "refresh_inv sys"
  then show ?thesis
    using JobEnds
    by (auto simp: refresh_inv_def performDatabaseRefresh_end_def split: if_splits)
qed

lemma foldl_refresh_inv: "refresh_inv sys \<Longrightarrow> refresh_inv (foldl refresh_step sys events)"
  by (induction events arbitrary: sys) (auto intro: refresh_step_inv)

lemma refresh_run_inv: "refresh_inv (refresh_run events)"
  unfolding refresh_run_def
  by (rule foldl_refresh_inv) (simp add: refresh_inv_def refresh_start_def)

lemma refresh_run_jobs: "jobs (refresh_run events) \<le> 1"
  using refresh_run_inv [of events] by (simp add: refresh_inv_def split: if_splits)

text \<open>
  Claim C8, as amended. A call of \<^verbatim>\<open>refreshHandler\<close> starts a refresh only for a POST
  when no refresh is in progress and either \<^verbatim>\<open>lastRefreshTime\<close> is the zero time or at
  least 30 minutes have passed since it; a call that starts none leaves the two variables
  unchanged and answers with success false. The message of a blocked POST depends on the
  reason: while a refresh is in progress it is the fixed text that a refresh is already in
  progress, without a time; otherwise it is the text with the remaining time, rounded to
  the minute. In every run of the state machine at most one refresh job is running.
\<close>

theorem refresh_is_rate_limited:
  assumes "refreshHandler method now now' s = (r, started, s')"
  shows "(started \<longrightarrow>
            method = ''POST'' \<and> \<not> refreshInProgress s \<and>
            (IsZero (lastRefreshTime s) \<or> 30 * minute \<le> time_Sub now (lastRefreshTime s)) \<and>
            s' = s\<lparr>refreshInProgress := True, lastRefreshTime := now'\<rparr>) \<and>
         (\<not> started \<longrightarrow> s' = s \<and> \<not> refresh_Success r) \<and>
         (method = ''POST'' \<and> refreshInProgress s \<longrightarrow>
            \<not> started \<and> refresh_Message r = AlreadyInProgress) \<and>
         (method = ''POST'' \<and> \<not> refreshInProgress s \<and> \<not> started \<longrightarrow>
            refresh_Message r =
              PleaseWait (Duration_Round
                (wrap64 (30 * minute - time_Sub now (lastRefreshTime s))) minute)) \<and>
         jobs (refresh_run events) \<le> 1"
  using refreshHandler_started [OF assms] refreshHandler_blocked [OF assms]
    refreshHandler_in_progress [OF assms] refreshHandler_rate_limited [OF assms]
    refresh_run_jobs [of events]
  by blast

lemma run_refresh_first:
  "refreshHandler ''POST'' 63600000000000000000 63600000000000000005
     \<lparr>refreshInProgress = False, lastRefreshTime = 0\<rparr> =
   (\<lparr>refresh_Success = True, refresh_Message = RefreshStarted\<rparr>, True,
    \<lparr>refreshInProgress = True, lastRefreshTime = 63600000000000000005\<rparr>)"
  by (simp add: refreshHandler_def IsZero_def Let_def)

lemma run_refresh_too_early:
  "refreshHandler ''POST'' (63600000000000000005 + 10 * minute) (63600000000000000009 + 10 * minute)
     \<lparr>refreshInProgress = False, lastRefreshTime = 63600000000000000005\<rparr> =
   (\<lparr>refresh_Success = False, refresh_Message = PleaseWait (20 * minute)\<rparr>, False,
    \<lparr>refreshInProgress = False, lastRefreshTime = 63600000000000000005\<rparr>)"
  by (simp add: refreshHandler_def IsZero_def Let_def time_Sub_def minute_def maxDuration_def
      minDuration_def wrap64_def Duration_Round_def lessThanHalf_def)

lemma run_refresh_in_progress:
  "refreshHandler ''POST'' (63600000000000000005 + 10 * minute) (63600000000000000009 + 10 * minute)
     \<lparr>refreshInProgress = True, lastRefreshTime = 63600000000000000005\<rparr> =
   (\<lparr>refresh_Success = False, refresh_Message = AlreadyInProgress\<rparr>, False,
    \<lparr>refreshInProgress = True, lastRefreshTime = 63600000000000000005\<rparr>)"
  by (simp add: refreshHandler_def)

theorem refresh_is_rate_limited_witness:
  "refreshHandler ''POST'' 63600000000000000000 63600000000000000005
     \<lparr>refreshInProgress = False, lastRefreshTime = 0\<rparr> =
   (\<lparr>refresh_Success = True, refresh_Message = RefreshStarted\<rparr>, True,
    \<lparr>refreshInProgress = True, lastRefreshTime = 63600000000000000005\<rparr>) \<and>
   IsZero (lastRefreshTime \<lparr>refreshInProgress = False, lastRefreshTime = 0\<rparr>) \<and>
   refreshHandler ''POST'' (63600000000000000005 + 10 * minute)
     (63600000000000000009 + 10 * minute)
     \<lparr>refreshInProgress = False, lastRefreshTime = 63600000000000000005\<rparr> =
   (\<lparr>refresh_Success = False, refresh_Message = PleaseWait (20 * minute)\<rparr>, False,
    \<lparr>refreshInProgress = False, lastRefreshTime = 63600000000000000005\<rparr>) \<and>
   PleaseWait (20 * minute) =
     PleaseWait (Duration_Round
       (wrap64 (30 * minute - time_Sub (63600000000000000005 + 10 * minute)
          (lastRefreshTime \<lparr>refreshInProgress = False,
             lastRefreshTime = 63600000000000000005\<rparr>))) minute) \<and>
   refreshHandler ''POST'' (63600000000000000005 + 10 * minute)
     (63600000000000000009 + 10 * minute)
     \<lparr>refreshInProgress = True, lastRefreshTime = 63600000000000000005\<rparr> =
   (\<lparr>refresh_Success = False, refresh_Message = AlreadyInProgress\<rparr>, False,
    \<lparr>refreshInProgress = True, lastRefreshTime = 63600000000000000005\<rparr>) \<and>
   jobs (refresh_run
     [Request ''POST'' 63600000000000000000 63600000000000000005,
      Request ''POST'' (63600000000000000005 + 10 * minute) (63600000000000000009 + 10 * minute),
      JobEnds]) \<le> 1"
proof -
  have a: "IsZero (lastRefreshTime \<lparr>refreshInProgress = False, lastRefreshTime = 0\<rparr>)"
    by (simp add: IsZero_def)
  have b: "PleaseWait (20 * minute) =
     PleaseWait (Duration_Round
       (wrap64 (30 * minute - time_Sub (63600000000000000005 + 10 * minute)
          (lastRefreshTime \<lparr>refreshInProgress = False,
             lastRefreshTime = 63600000000000000005\<rparr>))) minute)"
    using refresh_is_rate_limited [OF run_refresh_too_early] by simp
  show ?thesis
    using a b run_refresh_first run_refresh_too_early run_refresh_in_progress
      refresh_is_rate_limited [OF run_refresh_in_progress]
    by blast
qed

text \<open>
  Claim C8 as stated fails while a refresh is in progress: ten minutes after the refresh
  began, twenty minutes remain, and the message of the blocked POST is the fixed text
  without a time.
\<close>

theorem refresh_in_progress_message_has_no_time:
  "refreshHandler ''POST'' (63600000000000000005 + 10 * minute)
     (63600000000000000009 + 10 * minute)
     \<lparr>refreshInProgress = True, lastRefreshTime = 63600000000000000005\<rparr> =
   (\<lparr>refresh_Success = False, refresh_Message = AlreadyInProgress\<rparr>, False,
    \<lparr>refreshInProgress = True, lastRefreshTime = 63600000000000000005\<rparr>)"
  by (simp add: refreshHandler_def)

section \<open>Properties of the purge endpoint\<close>

lemma purgeLoop_failed:
  "snd (purgeLoop e pathJoin cacheDir packageType packages (files, failed)) =
     failed @ filter (\<lambda>pkgName. bad_pattern e (pathJoin cacheDir pkgName)) packages"
  by (induction packages arbitrary: files failed) (auto simp: purgeOne_def Let_def)

text \<open>
  Claim C10. A POST to the purge endpoint whose body decodes to a non-empty list and whose
  database delete succeeds is answered with success true and with the request's list as the
  deleted list, whatever the glob matched and whatever the removals did; the failed list
  holds exactly the names whose pattern \<^verbatim>\<open>filepath.Glob\<close> rejected.
\<close>

theorem purge_reports_request_list:
  assumes "method = ''POST''" and "body = Some packages" and "packages \<noteq> []"
    and "db_delete_ok e"
  shows "fst (purgeHandler e pathJoin method body cacheDir packageType w) =
           Json \<lparr>purge_Success = True,
                 purge_Message =
                   (if filter (\<lambda>pkgName. bad_pattern e (pathJoin cacheDir pkgName)) packages = []
                    then ''Packages purged successfully''
                    else ''Some packages failed to purge completely''),
                 Deleted = packages,
                 Failed = filter (\<lambda>pkgName. bad_pattern e (pathJoin cacheDir pkgName)) packages\<rparr>"
proof -
  obtain files failed where l:
    "purgeLoop e pathJoin cacheDir packageType packages (cache w, []) = (files, failed)"
    by (cases "purgeLoop e pathJoin cacheDir packageType packages (cache w, [])") auto
  have f: "failed = filter (\<lambda>pkgName. bad_pattern e (pathJoin cacheDir pkgName)) packages"
    using purgeLoop_failed [of e pathJoin cacheDir packageType packages "cache w" "[]"] l
    by simp
  show ?thesis
    using assms l f by (auto simp: purgeHandler_def Let_def)
qed

theorem purge_reports_request_list_witness:
  "''POST'' = ''POST'' \<and>
   Some [''foo-1.0.tgz'', ''bar-2.0.tgz'', ''[''] = Some [''foo-1.0.tgz'', ''bar-2.0.tgz'', ''[''] \<and>
   [''foo-1.0.tgz'', ''bar-2.0.tgz'', ''[''] \<noteq> [] \<and>
   db_delete_ok purge_unlink_fails \<and>
   purgeHandler purge_unlink_fails joinSlash ''POST''
     (Some [''foo-1.0.tgz'', ''bar-2.0.tgz'', ''['']) ''cache'' ''npm'' one_file_world =
     (Json \<lparr>purge_Success = True,
            purge_Message = ''Some packages failed to purge completely'',
            Deleted = [''foo-1.0.tgz'', ''bar-2.0.tgz'', ''[''], Failed = [''['']\<rparr>,
      \<lparr>cache = [''cache/foo-1.0.tgz'' \<mapsto> \<lparr>content = ''abc'', readable = True\<rparr>],
       rows = {}\<rparr>)"
proof -
  have d: "db_delete_ok purge_unlink_fails"
    by (simp add: purge_unlink_fails_def)
  have ne: "[''foo-1.0.tgz'', ''bar-2.0.tgz'', ''[''] \<noteq> ([] :: string list)"
    by simp
  have w: "snd (purgeHandler purge_unlink_fails joinSlash ''POST''
     (Some [''foo-1.0.tgz'', ''bar-2.0.tgz'', ''['']) ''cache'' ''npm'' one_file_world) =
     \<lparr>cache = [''cache/foo-1.0.tgz'' \<mapsto> \<lparr>content = ''abc'', readable = True\<rparr>],
      rows = {}\<rparr>"
    by (simp add: purgeHandler_def purgeOne_def purge_unlink_fails_def one_file_world_def
        joinSlash_def Let_def)
  have f: "filter (\<lambda>pkgName. bad_pattern purge_unlink_fails (joinSlash ''cache'' pkgName))
      [''foo-1.0.tgz'', ''bar-2.0.tgz'', ''[''] = [''['']"
    by (simp add: purge_unlink_fails_def joinSlash_def)
  have v: "fst (purgeHandler purge_unlink_fails joinSlash ''POST''
     (Some [''foo-1.0.tgz'', ''bar-2.0.tgz'', ''['']) ''cache'' ''npm'' one_file_world) =
     Json \<lparr>purge_Success = True,
           purge_Message = ''Some packages failed to purge completely'',
           Deleted = [''foo-1.0.tgz'', ''bar-2.0.tgz'', ''[''], Failed = [''['']\<rparr>"
    using purge_reports_request_list [OF refl refl ne d, of joinSlash "''cache''" "''npm''"
        one_file_world]
    unfolding f by simp
  show ?thesis
    using d v w by (simp add: prod_eq_iff)
qed

end
